theory Spec2Isabelle
  imports Complex_Main "HOL-Library.AList"
begin

section \<open>JavaScript values used by the snapshot engine\<close>

text \<open>
  Strings are lists of characters; one \<^typ>\<open>char\<close> stands for one UTF-16 code unit
  (the model has the code units below 256), so \<open>length\<close> is JavaScript's \<open>.length\<close> and
  \<open>take n\<close> is \<open>.slice(0, n)\<close>. A string is truthy iff it is not empty. \<open>trim\<close>
  removes the white space and line terminators of that range (TAB, LF, VT, FF, CR,
  SPACE, NBSP) from both ends. The case mappings are those of the ASCII letters; the
  code compares their results with ASCII words only.
\<close>

definition is_ws :: "char \<Rightarrow> bool" where
  "is_ws c = (c = CHR 0x09 \<or> c = CHR 0x0A \<or> c = CHR 0x0B \<or> c = CHR 0x0C
            \<or> c = CHR 0x0D \<or> c = CHR 0x20 \<or> c = CHR 0xA0)"

definition trim :: "string \<Rightarrow> string" where
  "trim s = rev (dropWhile is_ws (rev (dropWhile is_ws s)))"

definition truthy :: "string \<Rightarrow> bool" where
  "truthy s = (s \<noteq> [])"

definition upper_char :: "char \<Rightarrow> char" where
  "upper_char c =
     (case map_of (zip ''abcdefghijklmnopqrstuvwxyz'' ''ABCDEFGHIJKLMNOPQRSTUVWXYZ'') c of
        Some u \<Rightarrow> u | None \<Rightarrow> c)"

definition lower_char :: "char \<Rightarrow> char" where
  "lower_char c =
     (case map_of (zip ''ABCDEFGHIJKLMNOPQRSTUVWXYZ'' ''abcdefghijklmnopqrstuvwxyz'') c of
        Some l \<Rightarrow> l | None \<Rightarrow> c)"

definition toUpperCase :: "string \<Rightarrow> string" where
  "toUpperCase s = map upper_char s"

definition toLowerCase :: "string \<Rightarrow> string" where
  "toLowerCase s = map lower_char s"

text \<open>\<open>lines.join("\n")\<close>.\<close>

fun join_lines :: "string list \<Rightarrow> string" where
  "join_lines [] = []"
| "join_lines [l] = l"
| "join_lines (l # ls) = l @ [CHR 0x0A] @ join_lines ls"

text \<open>\<open>name.replace(/"/g, '\\"')\<close>: every double quote gets a backslash in front.\<close>

definition escape_quotes :: "string \<Rightarrow> string" where
  "escape_quotes s = concat (map (\<lambda>c. if c = CHR 0x22 then [CHR 0x5C, CHR 0x22] else [c]) s)"

text \<open>The decimal numeral JavaScript writes when a non-negative integer is appended to a string.\<close>

definition digit_char :: "nat \<Rightarrow> char" where
  "digit_char d = (''0123456789'' ! d)"

fun string_of_nat :: "nat \<Rightarrow> string" where
  "string_of_nat n =
     (if n < 10 then [digit_char n] else string_of_nat (n div 10) @ [digit_char (n mod 10)])"

declare string_of_nat.simps [simp del]

text \<open>
  A JavaScript \<open>Map\<close> keeps its keys in insertion order; \<open>set\<close> on a key that is present
  overwrites the value in place, which is \<^const>\<open>AList.update\<close>; \<open>get\<close> is
  \<^const>\<open>map_of\<close> and \<open>size\<close> is \<^const>\<open>length\<close>.
\<close>

type_synonym ('k, 'v) jsmap = "('k \<times> 'v) list"

section \<open>The reference store (snapshot.ts)\<close>

record RefEntry =
  role :: string
  name :: string
  frameId :: "string option"
  backendDOMNodeId :: "int option"
  viewportClickPoint :: "(rat \<times> rat) option"

type_synonym entry_set = "(string, RefEntry) jsmap"
type_synonym ref_map = "(string, entry_set) jsmap"

definition MAIN_FRAME_KEY :: string where
  "MAIN_FRAME_KEY = []"

definition getRefEntry :: "ref_map \<Rightarrow> string \<Rightarrow> string \<Rightarrow> RefEntry option" where
  "getRefEntry refMap frameKey ref =
     (case map_of refMap frameKey of None \<Rightarrow> None | Some entries \<Rightarrow> map_of entries ref)"

definition setRefMap :: "ref_map \<Rightarrow> string \<Rightarrow> entry_set \<Rightarrow> ref_map" where
  "setRefMap refMap frameKey entries = AList.update frameKey entries refMap"

text \<open>
  An entry has more than one resolution strategy when both the node handle and the
  viewport point are set; with neither set it resolves by locator. A store is in
  order when no entry that a lookup can return has both.
\<close>

definition one_strategy :: "RefEntry \<Rightarrow> bool" where
  "one_strategy e = (\<not> (backendDOMNodeId e \<noteq> None \<and> viewportClickPoint e \<noteq> None))"

definition store_ok :: "ref_map \<Rightarrow> bool" where
  "store_ok rm = (\<forall>K r e. getRefEntry rm K r = Some e \<longrightarrow> one_strategy e)"

section \<open>The in-page collector (SNAPSHOT_SCRIPT)\<close>

text \<open>
  What the script reads of an element: its tag name, its attributes (name and value,
  read through \<open>getAttribute\<close>), whether it is an \<open>HTMLInputElement\<close> (then its
  \<open>placeholder\<close>, \<open>type\<close> and \<open>value\<close> properties) and its \<open>textContent\<close>. \<open>elem_id\<close> is
  the element's identity, which the \<open>seen\<close> set compares.
\<close>

record html_input =
  placeholder :: string
  input_type :: string
  input_value :: string

record element =
  elem_id :: nat
  tagName :: string
  attributes :: "(string \<times> string) list"
  as_input :: "html_input option"
  textContent :: "string option"

definition getAttribute :: "element \<Rightarrow> string \<Rightarrow> string option" where
  "getAttribute el a = map_of (attributes el) a"

record raw_node =
  raw_role :: string
  raw_name :: string

definition roleMap :: "element \<Rightarrow> string \<Rightarrow> string option" where
  "roleMap el tag =
     (if tag = ''button'' then Some ''button''
      else if tag = ''a'' then Some ''link''
      else if tag = ''input'' then
        Some (let t = (case as_input el of Some i \<Rightarrow> Some (input_type i) | None \<Rightarrow> None) in
              if t = Some ''submit'' then ''button''
              else if t = Some ''button'' then ''button''
              else if t = Some ''checkbox'' then ''checkbox''
              else if t = Some ''radio'' then ''radio''
              else ''textbox'')
      else if tag = ''select'' then Some ''combobox''
      else if tag = ''textarea'' then Some ''textbox''
      else if tag \<in> set [''h1'', ''h2'', ''h3'', ''h4'', ''h5'', ''h6''] then Some ''heading''
      else None)"

text \<open>\<open>if (v) ...\<close> on a value that is a string or \<open>null\<close>: the string when it is truthy.\<close>

definition if_truthy :: "string option \<Rightarrow> string option" where
  "if_truthy v = (case v of None \<Rightarrow> None | Some s \<Rightarrow> if truthy s then Some s else None)"

definition getRole :: "element \<Rightarrow> string" where
  "getRole el =
     (case if_truthy (getAttribute el ''role'') of
        Some r \<Rightarrow> r
      | None \<Rightarrow> (case roleMap el (toLowerCase (tagName el)) of Some x \<Rightarrow> x | None \<Rightarrow> ''generic''))"

text \<open>\<open>el.textContent?.trim().slice(0, n) || ""\<close>.\<close>

definition text_slice :: "element \<Rightarrow> nat \<Rightarrow> string" where
  "text_slice el n = (case textContent el of None \<Rightarrow> [] | Some t \<Rightarrow> take n (trim t))"

definition is_button_input :: "html_input \<Rightarrow> bool" where
  "is_button_input i =
     (input_type i = ''submit'' \<or> input_type i = ''button'' \<or> input_type i = ''reset'')"

definition text_or_unnamed :: "element \<Rightarrow> string" where
  "text_or_unnamed el =
     (let text = text_slice el 200 in if truthy text then text else ''(unnamed)'')"

definition getName :: "element \<Rightarrow> string" where
  "getName el =
     (case if_truthy (getAttribute el ''aria-label'') of
        Some aria \<Rightarrow> trim aria
      | None \<Rightarrow>
     (case if_truthy (getAttribute el ''title'') of
        Some title \<Rightarrow> trim title
      | None \<Rightarrow>
     (case as_input el of
        None \<Rightarrow> text_or_unnamed el
      | Some i \<Rightarrow>
          if truthy (placeholder i) then trim (placeholder i)
          else if is_button_input i then
            (if truthy (input_value i) then input_value i
             else if truthy (text_slice el 100) then text_slice el 100
             else [])
          else text_or_unnamed el)))"

text \<open>
  \<open>add\<close> skips an element that was seen; the script runs it over the elements of the
  first selector list and, when that produced no node, over those of the second. The
  two \<open>querySelectorAll\<close> results are the document's part.
\<close>

record document =
  focusable :: "element list"
  fallback :: "element list"

fun add_all :: "element list \<Rightarrow> nat list \<Rightarrow> raw_node list \<Rightarrow> nat list \<times> raw_node list" where
  "add_all [] seen nodes = (seen, nodes)"
| "add_all (el # els) seen nodes =
     (if elem_id el \<in> set seen then add_all els seen nodes
      else add_all els (seen @ [elem_id el])
             (nodes @ [\<lparr>raw_role = getRole el, raw_name = getName el\<rparr>]))"

definition SNAPSHOT_SCRIPT :: "document \<Rightarrow> raw_node list" where
  "SNAPSHOT_SCRIPT doc =
     (case add_all (focusable doc) [] [] of
        (seen, nodes) \<Rightarrow>
          if length nodes = 0 then snd (add_all (fallback doc) seen nodes) else nodes)"

section \<open>Frame selectors\<close>

text \<open>\<open>frameSelector.split(">>")\<close>, then \<open>trim\<close> on every part and the empty parts dropped.\<close>

fun split_chain :: "string \<Rightarrow> string \<Rightarrow> string list" where
  "split_chain acc [] = [rev acc]"
| "split_chain acc [c] = [rev (c # acc)]"
| "split_chain acc (c # d # s) =
     (if c = CHR ''>'' \<and> d = CHR ''>'' then rev acc # split_chain [] s
      else split_chain (c # acc) (d # s))"

definition selector_parts :: "string \<Rightarrow> string list" where
  "selector_parts frameSelector = filter truthy (map trim (split_chain [] frameSelector))"

datatype error =
    RefNotFound string
  | EmptyFrameSelector
  | FrameEvaluateFailed
  | LocatorTimeout
  | NoFocusedElement
  | CouldNotResolveNode
  | NoBoxModel
  | ProtocolError

text \<open>A frame locator is the chain of selectors it was built from.\<close>

definition getChainedFrameLocator :: "string \<Rightarrow> error + string list" where
  "getChainedFrameLocator frameSelector =
     (let parts = selector_parts frameSelector in
      if length parts = 0 then Inl EmptyFrameSelector else Inr parts)"

section \<open>Snapshots through the in-page collector (snapshot.ts)\<close>

text \<open>
  The page is the collaborator: \<open>main_document\<close> is what \<open>page.evaluate\<close> reaches and
  \<open>frame_document\<close> what \<open>frame.locator("body").evaluate\<close> reaches through a chain of
  frame selectors; \<open>None\<close> is an evaluation that throws (cross-origin, navigation,
  timeout). \<open>getByRole root r n\<close> lists, in document order, the elements the browser
  matches for role \<open>r\<close> and name \<open>n\<close> under the root (the empty chain is the page
  itself); \<open>actionable a e\<close> says whether action \<open>a\<close> on element \<open>e\<close> passes the
  browser's checks within the timeout; \<open>focused\<close> is the element \<open>:focus\<close> finds.
\<close>

record page =
  main_document :: "document option"
  frame_document :: "string list \<Rightarrow> document option"
  getByRole :: "string list \<Rightarrow> string \<Rightarrow> string \<Rightarrow> nat list"
  actionable :: "string \<Rightarrow> nat \<Rightarrow> bool"
  focused :: "string list \<Rightarrow> nat option"

record SnapshotResult =
  result_text :: string
  result_refPrefix :: string

definition REF_PREFIX_MAIN :: string where
  "REF_PREFIX_MAIN = ''s1e''"

definition nameEsc :: "string \<Rightarrow> string" where
  "nameEsc n = (if truthy n then '' '' @ [CHR 0x22] @ escape_quotes n @ [CHR 0x22] else [])"

definition node_line :: "string \<Rightarrow> string \<Rightarrow> string \<Rightarrow> string" where
  "node_line r n ref = ''  - '' @ r @ nameEsc n @ '' [ref='' @ ref @ '']''"

text \<open>The entry \<open>{ role: node.role, name: node.name }\<close>: no other field is set.\<close>

definition locator_entry :: "raw_node \<Rightarrow> RefEntry" where
  "locator_entry node =
     \<lparr>role = raw_role node, name = raw_name node, frameId = None,
      backendDOMNodeId = None, viewportClickPoint = None\<rparr>"

text \<open>
  \<open>raw.forEach((node, i) => ...)\<close>: the node at index \<open>i\<close> gets the reference
  \<open>prefix + (i + 1)\<close>, an entry of role and name, and a line of the text. The script
  returns an array whenever it returns, so the test \<open>Array.isArray(raw)\<close> of both
  snapshot functions never fails and has no branch here.
\<close>

fun assign_refs ::
  "string \<Rightarrow> nat \<Rightarrow> raw_node list \<Rightarrow> entry_set \<times> string list \<Rightarrow> entry_set \<times> string list" where
  "assign_refs prefix i [] acc = acc"
| "assign_refs prefix i (node # rest) (entries, lines) =
     (let ref = prefix @ string_of_nat (i + 1) in
      assign_refs prefix (Suc i) rest
        (AList.update ref (locator_entry node) entries,
         lines @ [node_line (raw_role node) (raw_name node) ref]))"

definition snapshotMainFrame :: "page \<Rightarrow> ref_map \<Rightarrow> SnapshotResult \<times> ref_map" where
  "snapshotMainFrame pg refMap =
     (let raw = (case main_document pg of None \<Rightarrow> [] | Some doc \<Rightarrow> SNAPSHOT_SCRIPT doc);
          (entries, lines) =
            assign_refs REF_PREFIX_MAIN 0 raw ([], [''- document [ref='' @ REF_PREFIX_MAIN @ ''0]:'']);
          lines' = (if length lines = 1
                    then lines @ [''  - (no focusable elements; page may have loaded in an iframe)'']
                    else lines)
      in (\<lparr>result_text = join_lines lines', result_refPrefix = REF_PREFIX_MAIN\<rparr>,
          setRefMap refMap MAIN_FRAME_KEY entries))"

definition snapshotFrame ::
  "page \<Rightarrow> ref_map \<Rightarrow> string \<Rightarrow> (error + SnapshotResult) \<times> ref_map" where
  "snapshotFrame pg refMap frameSelector =
     (case getChainedFrameLocator frameSelector of
        Inl e \<Rightarrow> (Inl e, refMap)
      | Inr frame \<Rightarrow>
         (case frame_document pg frame of
            None \<Rightarrow> (Inl FrameEvaluateFailed, refMap)
          | Some doc \<Rightarrow>
             (let raw = SNAPSHOT_SCRIPT doc;
                  refPrefix = ''f1e'';
                  (entries, lines) =
                    assign_refs refPrefix 0 raw
                      ([], [''- frame '' @ frameSelector @ '' [ref='' @ refPrefix @ ''0]:'']);
                  lines' = (if length lines = 1
                            then lines @ [''  - (frame empty or still loading)''] else lines)
              in (Inr \<lparr>result_text = join_lines lines', result_refPrefix = refPrefix\<rparr>,
                  setRefMap refMap frameSelector entries))))"

section \<open>The protocol session (cdp.ts)\<close>

text \<open>
  A protocol call either throws or replies. The session is the collaborator: each
  field is the reply of one protocol method, \<open>can_send\<close> tells whether a method whose
  reply is not read (\<open>DOM.enable\<close>, \<open>Input.dispatchMouseEvent\<close>, ...) goes through.
\<close>

datatype 'a reply = Throws | Reply 'a

record AXNode =
  ax_nodeId :: "string option"
  ax_parentId :: "string option"
  ax_ignored :: "bool option"
  ax_role_value :: "string option"
  ax_name_value :: "string option"
  ax_backendDOMNodeId :: "int option"
  ax_frameId :: "string option"
  ax_childIds :: "string list option"

datatype Ftn = Ftn string "Ftn list"

record snapshot_nodes =
  nodeName :: "int list option"
  node_attributes :: "int list list option"
  isClickable :: "(int list \<times> int list) option"

record DocSnapshot =
  doc_frameId :: "int option"
  doc_nodes :: "snapshot_nodes option"
  layout_nodeIndex :: "int list option"
  layout_bounds :: "rat list list option"
  scrollOffsetX :: "rat option"
  scrollOffsetY :: "rat option"

record captured =
  documents :: "DocSnapshot list option"
  strings :: "string list option"

record cdp_session =
  can_send :: "string \<Rightarrow> bool"
  getFrameTree :: "Ftn option reply"
  getFrameOwner :: "string \<Rightarrow> int option reply"
  requestNode :: "int \<Rightarrow> int option reply"
  getAttributes :: "int \<Rightarrow> string list option reply"
  getBoxModel :: "int \<Rightarrow> rat list option reply"
  getFullAXTree :: "string \<Rightarrow> AXNode list option reply"
  captureSnapshot :: "captured reply"

text \<open>A browser context is what \<open>newCDPSession\<close> gives: a session, or \<open>None\<close> when it throws.\<close>

record browser_context =
  newCDPSession :: "cdp_session option"

section \<open>Input events and the world the actions change\<close>

datatype event =
    MouseEvent string rat rat string nat
  | Clicked nat
  | Hovered nat
  | Filled nat string
  | Pressed nat string
  | Selected nat "string list"
  | KeyboardType string
  | KeyboardPress string

record world =
  refMap :: ref_map
  events :: "event list"

definition emit :: "world \<Rightarrow> event list \<Rightarrow> world" where
  "emit w evs = w\<lparr>events := events w @ evs\<rparr>"

text \<open>\<open>dispatchClickAtPoint\<close>: a press and a release at the point, left button, one click.\<close>

definition dispatchClickAtPoint :: "cdp_session \<Rightarrow> world \<Rightarrow> rat \<Rightarrow> rat \<Rightarrow> (error + unit) \<times> world" where
  "dispatchClickAtPoint cdp w x y =
     (if can_send cdp ''Input.dispatchMouseEvent''
      then (Inr (), emit w [MouseEvent ''mousePressed'' x y ''left'' 1,
                            MouseEvent ''mouseReleased'' x y ''left'' 1])
      else (Inl ProtocolError, w))"

definition dispatchClickAtNode :: "cdp_session \<Rightarrow> world \<Rightarrow> int \<Rightarrow> (error + unit) \<times> world" where
  "dispatchClickAtNode cdp w nodeId =
     (case getBoxModel cdp nodeId of
        Throws \<Rightarrow> (Inl ProtocolError, w)
      | Reply None \<Rightarrow> (Inl NoBoxModel, w)
      | Reply (Some content) \<Rightarrow>
          if length content < 6 then (Inl NoBoxModel, w)
          else dispatchClickAtPoint cdp w ((content ! 0 + content ! 2) / 2)
                                          ((content ! 1 + content ! 5) / 2))"

definition clickViaCDP :: "cdp_session \<Rightarrow> world \<Rightarrow> int \<Rightarrow> (error + unit) \<times> world" where
  "clickViaCDP cdp w backendId =
     (if \<not> can_send cdp ''DOM.enable'' then (Inl ProtocolError, w)
      else case requestNode cdp backendId of
             Throws \<Rightarrow> (Inl ProtocolError, w)
           | Reply None \<Rightarrow> (Inl CouldNotResolveNode, w)
           | Reply (Some nodeId) \<Rightarrow> dispatchClickAtNode cdp w nodeId)"

section \<open>Actions by reference (actions.ts)\<close>

text \<open>
  A locator is \<open>getByRole(role, { name }).first()\<close> under a root: the chain of frame
  selectors, empty for the page.
\<close>

datatype locator = RoleFirst "string list" string string

definition frame_key :: "string option \<Rightarrow> string" where
  "frame_key frameSelector = (case frameSelector of None \<Rightarrow> MAIN_FRAME_KEY | Some s \<Rightarrow> s)"

definition getLocatorForRef :: "ref_map \<Rightarrow> string option \<Rightarrow> string \<Rightarrow> error + locator" where
  "getLocatorForRef rm frameSelector ref =
     (case getRefEntry rm (frame_key frameSelector) ref of
        None \<Rightarrow> Inl (RefNotFound ref)
      | Some entry \<Rightarrow>
         (case if_truthy frameSelector of
            Some fs \<Rightarrow>
              (case getChainedFrameLocator fs of
                 Inl e \<Rightarrow> Inl e
               | Inr frame \<Rightarrow> Inr (RoleFirst frame (role entry) (name entry)))
          | None \<Rightarrow> Inr (RoleFirst [] (role entry) (name entry))))"

text \<open>
  The element a locator acts on: the first match, when there is one and the action
  passes the browser's checks; otherwise the action times out.
\<close>

definition resolve :: "page \<Rightarrow> string \<Rightarrow> locator \<Rightarrow> error + nat" where
  "resolve pg action loc =
     (case loc of RoleFirst frame r n \<Rightarrow>
        (case getByRole pg frame r n of
           [] \<Rightarrow> Inl LocatorTimeout
         | e # _ \<Rightarrow> if actionable pg action e then Inr e else Inl LocatorTimeout))"

definition click ::
  "page \<Rightarrow> world \<Rightarrow> string \<Rightarrow> string option \<Rightarrow> browser_context option \<Rightarrow> (error + unit) \<times> world" where
  "click pg w ref frameSelector context =
     (case getRefEntry (refMap w) (frame_key frameSelector) ref of
        None \<Rightarrow> (Inl (RefNotFound ref), w)
      | Some entry \<Rightarrow>
          if context \<noteq> None \<and> (backendDOMNodeId entry \<noteq> None \<or> viewportClickPoint entry \<noteq> None)
          then (case context of
                  None \<Rightarrow> (Inr (), w)
                | Some ctx \<Rightarrow>
                   (case newCDPSession ctx of
                      None \<Rightarrow> (Inl ProtocolError, w)
                    | Some cdp \<Rightarrow>
                       (case viewportClickPoint entry of
                          Some (x, y) \<Rightarrow> dispatchClickAtPoint cdp w x y
                        | None \<Rightarrow>
                           (case backendDOMNodeId entry of
                              Some b \<Rightarrow> clickViaCDP cdp w b
                            | None \<Rightarrow> (Inr (), w)))))
          else (case getLocatorForRef (refMap w) frameSelector ref of
                  Inl e \<Rightarrow> (Inl e, w)
                | Inr loc \<Rightarrow>
                   (case resolve pg ''click'' loc of
                      Inl e \<Rightarrow> (Inl e, w)
                    | Inr el \<Rightarrow> (Inr (), emit w [Clicked el]))))"

text \<open>\<open>type\<close>: by reference when \<open>options.ref\<close> is truthy, otherwise into the focus.\<close>

definition type_text ::
  "page \<Rightarrow> world \<Rightarrow> string \<Rightarrow> string option \<Rightarrow> string option \<Rightarrow> bool \<Rightarrow> (error + unit) \<times> world" where
  "type_text pg w txt ref frameSelector submit =
     (case if_truthy ref of
        Some r \<Rightarrow>
         (case getLocatorForRef (refMap w) frameSelector r of
            Inl e \<Rightarrow> (Inl e, w)
          | Inr loc \<Rightarrow>
             (case resolve pg ''fill'' loc of
                Inl e \<Rightarrow> (Inl e, w)
              | Inr el \<Rightarrow>
                 (let w1 = emit w [Filled el txt] in
                  if submit then
                    (case resolve pg ''press'' loc of
                       Inl e \<Rightarrow> (Inl e, w1)
                     | Inr el' \<Rightarrow> (Inr (), emit w1 [Pressed el' ''Enter'']))
                  else (Inr (), w1))))
      | None \<Rightarrow>
         (case (case if_truthy frameSelector of
                  Some fs \<Rightarrow>
                   (case getChainedFrameLocator fs of
                      Inl e \<Rightarrow> (Inl e, w)
                    | Inr frame \<Rightarrow>
                       (case focused pg frame of
                          None \<Rightarrow> (Inl NoFocusedElement, w)
                        | Some el \<Rightarrow>
                            if actionable pg ''fill'' el then (Inr (), emit w [Filled el txt])
                            else (Inl NoFocusedElement, w)))
                | None \<Rightarrow> (Inr (), emit w [KeyboardType txt])) of
            (Inl e, w1) \<Rightarrow> (Inl e, w1)
          | (Inr u, w1) \<Rightarrow>
              if submit then (Inr (), emit w1 [KeyboardPress ''Enter'']) else (Inr (), w1)))"

definition hover :: "page \<Rightarrow> world \<Rightarrow> string \<Rightarrow> string option \<Rightarrow> (error + unit) \<times> world" where
  "hover pg w ref frameSelector =
     (case getLocatorForRef (refMap w) frameSelector ref of
        Inl e \<Rightarrow> (Inl e, w)
      | Inr loc \<Rightarrow>
         (case resolve pg ''hover'' loc of
            Inl e \<Rightarrow> (Inl e, w)
          | Inr el \<Rightarrow> (Inr (), emit w [Hovered el])))"

definition selectOption ::
  "page \<Rightarrow> world \<Rightarrow> string \<Rightarrow> string list \<Rightarrow> string option \<Rightarrow> (error + unit) \<times> world" where
  "selectOption pg w ref vals frameSelector =
     (case getLocatorForRef (refMap w) frameSelector ref of
        Inl e \<Rightarrow> (Inl e, w)
      | Inr loc \<Rightarrow>
         (case resolve pg ''selectOption'' loc of
            Inl e \<Rightarrow> (Inl e, w)
          | Inr el \<Rightarrow> (Inr (), emit w [Selected el vals])))"

section \<open>Tier A: the accessibility tree (cdp.ts)\<close>

definition INTERACTIVE_ROLES :: "string list" where
  "INTERACTIVE_ROLES =
     [''button'', ''link'', ''textbox'', ''checkbox'', ''radio'', ''combobox'', ''tab'',
      ''menuitem'', ''option'', ''switch'', ''searchbox'', ''spinbutton'',
      ''heading'', ''region'', ''graphic'', ''img'', ''group'']"

definition axRole :: "AXNode \<Rightarrow> string" where
  "axRole node = (case ax_role_value node of Some r \<Rightarrow> r | None \<Rightarrow> ''generic'')"

definition axName :: "AXNode \<Rightarrow> string" where
  "axName node =
     (case ax_name_value node of
        None \<Rightarrow> ''(unnamed)''
      | Some n \<Rightarrow> if truthy n \<and> truthy (trim n) then take 200 (trim n) else ''(unnamed)'')"

definition isInteractive :: "AXNode \<Rightarrow> bool" where
  "isInteractive node = (axRole node \<in> set INTERACTIVE_ROLES \<or> axRole node = ''generic'')"

text \<open>The test of the walk: \<open>!node.ignored && node.backendDOMNodeId != null && isInteractive(node)\<close>.\<close>

definition walk_accepts :: "AXNode \<Rightarrow> bool" where
  "walk_accepts node =
     (ax_ignored node \<noteq> Some True \<and> ax_backendDOMNodeId node \<noteq> None \<and> isInteractive node)"

text \<open>The test of the second pass over all nodes, which runs when the walk found nothing.\<close>

definition second_pass_accepts :: "AXNode \<Rightarrow> bool" where
  "second_pass_accepts n =
     (ax_ignored n \<noteq> Some True \<and> ax_backendDOMNodeId n \<noteq> None
      \<and> (if_truthy (ax_role_value n) \<noteq> None \<or> if_truthy (ax_name_value n) \<noteq> None))"

definition byId_of :: "AXNode list \<Rightarrow> (string, AXNode) jsmap" where
  "byId_of nodes =
     fold (\<lambda>n m. case if_truthy (ax_nodeId n) of Some i \<Rightarrow> AList.update i n m | None \<Rightarrow> m) nodes []"

text \<open>
  \<open>walk\<close> calls itself on every child id, with nothing that stops it on a cycle of
  \<open>childIds\<close>; the first argument is the depth of calls the stack still has, and \<open>None\<close>
  is the stack running out.
\<close>

fun walk :: "nat \<Rightarrow> (string, AXNode) jsmap \<Rightarrow> string \<Rightarrow> AXNode list option" where
  "walk 0 byId i = None"
| "walk (Suc d) byId i =
     (case map_of byId i of
        None \<Rightarrow> Some []
      | Some node \<Rightarrow>
         (case those (map (walk d byId) (case ax_childIds node of None \<Rightarrow> [] | Some cs \<Rightarrow> cs)) of
            None \<Rightarrow> None
          | Some outs \<Rightarrow> Some ((if walk_accepts node then [node] else []) @ concat outs)))"

definition collectInteractiveNodes :: "nat \<Rightarrow> AXNode list \<Rightarrow> AXNode list option" where
  "collectInteractiveNodes depth nodes =
     (let byId = byId_of nodes;
          roots = filter (\<lambda>n. if_truthy (ax_parentId n) = None) nodes in
      case those (map (\<lambda>n. case if_truthy (ax_nodeId n) of
                               Some i \<Rightarrow> walk depth byId i | None \<Rightarrow> Some []) roots) of
        None \<Rightarrow> None
      | Some outs \<Rightarrow>
          Some (if length (concat outs) = 0 \<and> length nodes > 0
                then filter second_pass_accepts nodes
                else concat outs))"

record CDPRefEntry =
  cdp_role :: string
  cdp_name :: string
  cdp_frameId :: string
  cdp_backendDOMNodeId :: "int option"
  cdp_viewportClickPoint :: "(rat \<times> rat) option"

record CDPSnapshotResult =
  cdp_text :: string
  cdp_refPrefix :: string
  cdp_frameKey :: string
  cdp_entries :: "(string, CDPRefEntry) jsmap"

fun ax_refs ::
  "string \<Rightarrow> string \<Rightarrow> nat \<Rightarrow> AXNode list \<Rightarrow> (string, CDPRefEntry) jsmap \<times> string list
     \<Rightarrow> (string, CDPRefEntry) jsmap \<times> string list" where
  "ax_refs prefix fid i [] acc = acc"
| "ax_refs prefix fid i (node # rest) (entries, lines) =
     (let ref = prefix @ string_of_nat (i + 1);
          r = axRole node;
          n = axName node in
      ax_refs prefix fid (Suc i) rest
        (case ax_backendDOMNodeId node of
           Some b \<Rightarrow> AList.update ref
                      \<lparr>cdp_role = r, cdp_name = n, cdp_frameId = fid,
                       cdp_backendDOMNodeId = Some b, cdp_viewportClickPoint = None\<rparr> entries
         | None \<Rightarrow> entries,
         lines @ [node_line r n ref]))"

definition buildSnapshotFromAXNodes ::
  "nat \<Rightarrow> AXNode list \<Rightarrow> string \<Rightarrow> string \<Rightarrow> string \<Rightarrow> string
     \<Rightarrow> (string \<times> (string, CDPRefEntry) jsmap) option" where
  "buildSnapshotFromAXNodes depth nodes frameLabel refPrefix fid frameKey =
     (case collectInteractiveNodes depth nodes of
        None \<Rightarrow> None
      | Some interactive \<Rightarrow>
         (let (entries, lines) =
                ax_refs refPrefix fid 0 interactive
                  ([], [''- frame '' @ frameLabel @ '' [ref='' @ refPrefix @ ''0]:'']);
              lines' = (if length lines = 1
                        then lines @ [''  - (CDP: '' @ string_of_nat (length nodes)
                                       @ '' AX nodes, none matched)'']
                        else lines)
          in Some (join_lines lines', entries)))"

definition getAXTreeForFrame :: "cdp_session \<Rightarrow> string \<Rightarrow> AXNode list" where
  "getAXTreeForFrame cdp fid =
     (if \<not> can_send cdp ''Accessibility.enable'' then []
      else case getFullAXTree cdp fid of
             Throws \<Rightarrow> []
           | Reply None \<Rightarrow> []
           | Reply (Some nodes) \<Rightarrow> nodes)"

definition snapshotFrameViaCDP ::
  "nat \<Rightarrow> cdp_session \<Rightarrow> string \<Rightarrow> string \<Rightarrow> string \<Rightarrow> CDPSnapshotResult option" where
  "snapshotFrameViaCDP depth cdp fid frameKey refPrefix =
     (case buildSnapshotFromAXNodes depth (getAXTreeForFrame cdp fid) frameKey refPrefix fid frameKey of
        None \<Rightarrow> None
      | Some (txt, entries) \<Rightarrow>
          Some \<lparr>cdp_text = txt, cdp_refPrefix = refPrefix, cdp_frameKey = frameKey,
                cdp_entries = entries\<rparr>)"

text \<open>
  The nodes the walk visits from id \<open>i\<close>: the node stored under \<open>i\<close>, and what it visits
  from the child ids of that node.
\<close>

inductive reaches :: "(string, AXNode) jsmap \<Rightarrow> string \<Rightarrow> AXNode \<Rightarrow> bool"
  for byId :: "(string, AXNode) jsmap" where
  here: "map_of byId i = Some node \<Longrightarrow> reaches byId i node"
| below: "map_of byId i = Some parent \<Longrightarrow> ax_childIds parent = Some cs \<Longrightarrow> c \<in> set cs
          \<Longrightarrow> reaches byId c node \<Longrightarrow> reaches byId i node"

section \<open>Tier B: the layout snapshot (cdp.ts)\<close>

text \<open>\<open>xs[i]\<close> on an array: \<open>undefined\<close> outside the array.\<close>

definition nth_opt :: "'a list \<Rightarrow> int \<Rightarrow> 'a option" where
  "nth_opt xs i = (if 0 \<le> i \<and> nat i < length xs then Some (xs ! nat i) else None)"

fun index_of :: "int list \<Rightarrow> int \<Rightarrow> nat option" where
  "index_of [] v = None"
| "index_of (x # xs) v = (if x = v then Some 0 else map_option Suc (index_of xs v))"

definition getRareBooleanAt :: "(int list \<times> int list) option \<Rightarrow> int \<Rightarrow> bool" where
  "getRareBooleanAt data nodeIdx =
     (case data of
        None \<Rightarrow> False
      | Some (idx, val) \<Rightarrow>
         (case index_of idx nodeIdx of
            None \<Rightarrow> False
          | Some i \<Rightarrow> (case nth_opt val (int i) of Some v \<Rightarrow> v \<noteq> 0 | None \<Rightarrow> False)))"

fun attr_scan :: "string list \<Rightarrow> string \<Rightarrow> int list \<Rightarrow> string option" where
  "attr_scan strs nm (k # v # rest) =
     (case nth_opt strs k of
        Some key \<Rightarrow> if toLowerCase key = toLowerCase nm then nth_opt strs v
                    else attr_scan strs nm rest
      | None \<Rightarrow> attr_scan strs nm rest)"
| "attr_scan strs nm rest = None"

definition getAttr :: "snapshot_nodes \<Rightarrow> string list \<Rightarrow> int \<Rightarrow> string \<Rightarrow> string option" where
  "getAttr nodes strs nodeIdx nm =
     (case node_attributes nodes of
        None \<Rightarrow> None
      | Some table \<Rightarrow>
         (case nth_opt table nodeIdx of None \<Rightarrow> None | Some attrs \<Rightarrow> attr_scan strs nm attrs))"

definition CLICKABLE_TAGS :: "string list" where
  "CLICKABLE_TAGS = [''BUTTON'', ''A'', ''INPUT'', ''SELECT'', ''TEXTAREA'']"

record rect =
  rect_x :: rat
  rect_y :: rat
  rect_width :: rat
  rect_height :: rat

definition getIframeViewportRect :: "cdp_session \<Rightarrow> string \<Rightarrow> rect option" where
  "getIframeViewportRect cdp fid =
     (if \<not> can_send cdp ''DOM.enable'' then None
      else case getFrameOwner cdp fid of
             Reply (Some backendNodeId) \<Rightarrow>
              (case requestNode cdp backendNodeId of
                 Reply (Some nodeId) \<Rightarrow>
                  (case getBoxModel cdp nodeId of
                     Reply (Some c) \<Rightarrow>
                       if length c < 8 then None
                       else Some \<lparr>rect_x = c ! 0, rect_y = c ! 1,
                                  rect_width = c ! 2 - c ! 0, rect_height = c ! 5 - c ! 1\<rparr>
                   | _ \<Rightarrow> None)
               | _ \<Rightarrow> None)
           | _ \<Rightarrow> None)"

text \<open>
  One turn of the loop over the layout rows: row \<open>i\<close> is skipped unless its box has
  four numbers with positive width and height and its node is clickable; otherwise it
  gets the next reference and an entry with the viewport point.
\<close>

record snap_state =
  st_entries :: "(string, CDPRefEntry) jsmap"
  st_lines :: "string list"
  st_refIdx :: nat

definition dom_label :: "snapshot_nodes \<Rightarrow> string list \<Rightarrow> int \<Rightarrow> string option \<Rightarrow> string" where
  "dom_label nodes strTable domIdx tag =
     (let ariaLabel = getAttr nodes strTable domIdx ''aria-label'';
          title = getAttr nodes strTable domIdx ''title'';
          chosen = (case ariaLabel of Some a \<Rightarrow> a
                    | None \<Rightarrow> (case title of Some t \<Rightarrow> t
                               | None \<Rightarrow> (case tag of Some g \<Rightarrow> g | None \<Rightarrow> ''element'')));
          cut = take 200 (trim chosen)
      in if truthy cut then cut else ''(unnamed)'')"

definition dom_role :: "string \<Rightarrow> string" where
  "dom_role tagUpper =
     (if tagUpper = ''A'' then ''link'' else if tagUpper = ''BUTTON'' then ''button''
      else if tagUpper = ''INPUT'' then ''textbox'' else ''button'')"

definition dom_step ::
  "string \<Rightarrow> string \<Rightarrow> string list \<Rightarrow> snapshot_nodes \<Rightarrow> int list \<Rightarrow> rat list list \<Rightarrow> rect
     \<Rightarrow> rat \<Rightarrow> rat \<Rightarrow> nat \<Rightarrow> snap_state \<Rightarrow> snap_state" where
  "dom_step fid refPrefix strTable nodes nodeIndex bounds iframeRect scrollX scrollY i st =
     (let domIdx = nodeIndex ! i in
      case nth_opt bounds (int i) of
        None \<Rightarrow> st
      | Some b \<Rightarrow>
          if length b < 4 \<or> b ! 2 \<le> 0 \<or> b ! 3 \<le> 0 then st
          else
            (let tag = (case nodeName nodes of
                          None \<Rightarrow> None
                        | Some nn \<Rightarrow> (case nth_opt nn domIdx of
                                        None \<Rightarrow> None | Some k \<Rightarrow> nth_opt strTable k));
                 tagUpper = toUpperCase (case tag of Some g \<Rightarrow> g | None \<Rightarrow> []);
                 clickable = (getRareBooleanAt (isClickable nodes) domIdx
                              \<or> tagUpper \<in> set CLICKABLE_TAGS
                              \<or> getAttr nodes strTable domIdx ''role'' \<noteq> None)
             in if \<not> clickable then st
                else
                  (let label = dom_label nodes strTable domIdx tag;
                       r = dom_role tagUpper;
                       centerX = b ! 0 + b ! 2 / 2 - scrollX;
                       centerY = b ! 1 + b ! 3 / 2 - scrollY;
                       viewportX = rect_x iframeRect + centerX;
                       viewportY = rect_y iframeRect + centerY;
                       refIdx = st_refIdx st + 1;
                       ref = refPrefix @ string_of_nat refIdx
                   in \<lparr>st_entries =
                         AList.update ref
                           \<lparr>cdp_role = r, cdp_name = label, cdp_frameId = fid,
                            cdp_backendDOMNodeId = None,
                            cdp_viewportClickPoint = Some (viewportX, viewportY)\<rparr>
                           (st_entries st),
                       st_lines = st_lines st @ [node_line r label ref],
                       st_refIdx = refIdx\<rparr>)))"

definition find_document :: "DocSnapshot list \<Rightarrow> string list \<Rightarrow> string \<Rightarrow> DocSnapshot option" where
  "find_document docs strTable fid =
     find (\<lambda>d. case doc_frameId d of
                  None \<Rightarrow> False
                | Some k \<Rightarrow> nth_opt strTable k = Some fid) docs"

definition snapshotFrameViaDOMSnapshot ::
  "cdp_session \<Rightarrow> string \<Rightarrow> string \<Rightarrow> string \<Rightarrow> string list \<Rightarrow> CDPSnapshotResult option" where
  "snapshotFrameViaDOMSnapshot cdp fid frameKey refPrefix strs =
     (if \<not> can_send cdp ''DOMSnapshot.enable'' then None
      else case captureSnapshot cdp of
        Throws \<Rightarrow> None
      | Reply snap \<Rightarrow>
         (let docs = (case documents snap of Some ds \<Rightarrow> ds | None \<Rightarrow> []);
              strTable = (case strings snap of Some t \<Rightarrow> t | None \<Rightarrow> strs) in
          case find_document docs strTable fid of
            None \<Rightarrow> None
          | Some doc \<Rightarrow>
             (case (layout_nodeIndex doc, layout_bounds doc, doc_nodes doc) of
                (Some nodeIndex, Some bounds, Some nodes) \<Rightarrow>
                  (case getIframeViewportRect cdp fid of
                     None \<Rightarrow> None
                   | Some iframeRect \<Rightarrow>
                      (let scrollX = (case scrollOffsetX doc of Some v \<Rightarrow> v | None \<Rightarrow> 0);
                           scrollY = (case scrollOffsetY doc of Some v \<Rightarrow> v | None \<Rightarrow> 0);
                           st = fold (dom_step fid refPrefix strTable nodes nodeIndex bounds
                                        iframeRect scrollX scrollY)
                                  [0..<length nodeIndex]
                                  \<lparr>st_entries = [],
                                   st_lines = [''- frame '' @ frameKey @ '' [ref='' @ refPrefix
                                               @ ''0] (DOMSnapshot):''],
                                   st_refIdx = 0\<rparr>
                       in if length (st_entries st) = 0 then None
                          else Some \<lparr>cdp_text = join_lines (st_lines st),
                                     cdp_refPrefix = refPrefix, cdp_frameKey = frameKey,
                                     cdp_entries = st_entries st\<rparr>))
              | _ \<Rightarrow> None)))"

section \<open>The frame tree and the selectors of its frames\<close>

text \<open>\<open>collect\<close>: the ids of the frame tree, parent before children.\<close>

fun collect :: "Ftn \<Rightarrow> string list" where
  "collect (Ftn i children) = i # concat (map collect children)"

text \<open>The \<open>id\<close> and \<open>name\<close> of an attribute array \<open>[k0, v0, k1, v1, ...]\<close>; a later pair wins.\<close>

fun id_name_scan :: "string list \<Rightarrow> string option \<times> string option \<Rightarrow> string option \<times> string option" where
  "id_name_scan (k # v # rest) (i, n) =
     id_name_scan rest (if k = ''id'' then Some v else i, if k = ''name'' then Some v else n)"
| "id_name_scan rest acc = acc"

definition nth_of_type :: "nat \<Rightarrow> string" where
  "nth_of_type i = ''iframe:nth-of-type('' @ string_of_nat i @ '')''"

definition owner_selector :: "string list \<Rightarrow> nat \<Rightarrow> string" where
  "owner_selector arr i =
     (case id_name_scan arr (None, None) of
        (ident, nm) \<Rightarrow>
          (case if_truthy ident of
             Some v \<Rightarrow> ''iframe#'' @ v
           | None \<Rightarrow>
              (case if_truthy nm of
                 Some v \<Rightarrow> ''iframe[name='' @ [CHR 0x22] @ v @ [CHR 0x22] @ '']''
               | None \<Rightarrow> nth_of_type i)))"

fun frame_selectors ::
  "cdp_session \<Rightarrow> nat \<Rightarrow> string list \<Rightarrow> (string, string) jsmap \<Rightarrow> (string, string) jsmap" where
  "frame_selectors cdp i [] m = m"
| "frame_selectors cdp i (fid # rest) m =
     frame_selectors cdp (Suc i) rest
       (case getFrameOwner cdp fid of
          Throws \<Rightarrow> AList.update fid (nth_of_type i) m
        | Reply None \<Rightarrow> m
        | Reply (Some backendNodeId) \<Rightarrow>
           (case requestNode cdp backendNodeId of
              Throws \<Rightarrow> AList.update fid (nth_of_type i) m
            | Reply None \<Rightarrow> m
            | Reply (Some nodeId) \<Rightarrow>
               (case getAttributes cdp nodeId of
                  Throws \<Rightarrow> AList.update fid (nth_of_type i) m
                | Reply attrs \<Rightarrow>
                    AList.update fid
                      (owner_selector (case attrs of Some a \<Rightarrow> a | None \<Rightarrow> []) i) m)))"

definition buildFrameIdToSelector :: "cdp_session \<Rightarrow> string list \<Rightarrow> (string, string) jsmap reply" where
  "buildFrameIdToSelector cdp frameIds =
     (if can_send cdp ''DOM.enable'' then Reply (frame_selectors cdp 0 frameIds []) else Throws)"

section \<open>The tool \<open>browser_snapshot_frame\<close> (tools.ts)\<close>

record tool_result =
  tool_text :: string
  isError :: bool

definition toolResult :: "string \<Rightarrow> bool \<Rightarrow> tool_result" where
  "toolResult t e = \<lparr>tool_text = t, isError = e\<rparr>"

text \<open>\<open>frameSelector.includes(">>")\<close>.\<close>

fun includes_chain :: "string \<Rightarrow> bool" where
  "includes_chain (c # d # s) = ((c = CHR ''>'' \<and> d = CHR ''>'') \<or> includes_chain (d # s))"
| "includes_chain s = False"

text \<open>The collector a call attempts, in the order of the attempts.\<close>

datatype tier = InPage | TierA | TierB

definition to_RefEntry :: "CDPRefEntry \<Rightarrow> RefEntry" where
  "to_RefEntry e =
     \<lparr>role = cdp_role e, name = cdp_name e, frameId = Some (cdp_frameId e),
      backendDOMNodeId = cdp_backendDOMNodeId e,
      viewportClickPoint = cdp_viewportClickPoint e\<rparr>"

definition copy_entries :: "(string, CDPRefEntry) jsmap \<Rightarrow> entry_set" where
  "copy_entries es = fold (\<lambda>(ref, e) acc. AList.update ref (to_RefEntry e) acc) es []"

text \<open>
  The frame id the tool snapshots: the first frame whose selector is the frame
  selector or its innermost part (any selector that starts with \<open>iframe\<close> when the frame
  selector is just \<open>iframe\<close>), else the second frame of the tree.
\<close>

definition find_frame_id :: "cdp_session \<Rightarrow> Ftn option \<Rightarrow> string \<Rightarrow> string option reply" where
  "find_frame_id cdp tree_root frameSelector =
     (case tree_root of
        None \<Rightarrow> Reply None
      | Some r \<Rightarrow>
         (let lst = collect r in
          case buildFrameIdToSelector cdp lst of
            Throws \<Rightarrow> Throws
          | Reply idToSel \<Rightarrow>
             (let selectorToMatch =
                    (if includes_chain frameSelector
                     then (case selector_parts frameSelector of
                             [] \<Rightarrow> None | ps \<Rightarrow> Some (last ps))
                     else Some frameSelector);
                  found = find (\<lambda>(fid, sel). Some sel = selectorToMatch \<or> sel = frameSelector
                                   \<or> (frameSelector = ''iframe'' \<and> take 6 sel = ''iframe''))
                            idToSel;
                  found_id = (case found of Some (fid, sel) \<Rightarrow> Some fid | None \<Rightarrow> None)
              in Reply (if if_truthy found_id = None \<and> length lst > 1
                        then Some (lst ! 1) else found_id))))"

text \<open>
  The part of the handler inside \<open>if (context) { try { ... } catch (_) {} }\<close>: the text
  of a result that was returned (\<open>None\<close> when the block was left without one), the
  store and the tiers attempted.
\<close>

definition cdp_snapshot ::
  "nat \<Rightarrow> browser_context option \<Rightarrow> ref_map \<Rightarrow> string \<Rightarrow> string option \<times> ref_map \<times> tier list" where
  "cdp_snapshot depth context rm frameSelector =
     (case context of
        None \<Rightarrow> (None, rm, [])
      | Some ctx \<Rightarrow>
     (case newCDPSession ctx of
        None \<Rightarrow> (None, rm, [])
      | Some cdp \<Rightarrow>
          if \<not> can_send cdp ''Page.enable'' then (None, rm, [])
          else
     (case getFrameTree cdp of
        Throws \<Rightarrow> (None, rm, [])
      | Reply tree_root \<Rightarrow>
     (case find_frame_id cdp tree_root frameSelector of
        Throws \<Rightarrow> (None, rm, [])
      | Reply found_id \<Rightarrow>
     (case if_truthy found_id of
        None \<Rightarrow> (None, rm, [])
      | Some fid \<Rightarrow>
     (case snapshotFrameViaCDP depth cdp fid frameSelector ''f1e'' of
        None \<Rightarrow> (None, rm, [TierA])
      | Some a \<Rightarrow>
          if length (cdp_entries a) = 0
          then (let cdpResult = (case snapshotFrameViaDOMSnapshot cdp fid frameSelector ''f1e'' [] of
                                   Some domResult \<Rightarrow> domResult | None \<Rightarrow> a)
                in (Some (cdp_text cdpResult),
                    setRefMap rm frameSelector (copy_entries (cdp_entries cdpResult)),
                    [TierA, TierB]))
          else (Some (cdp_text a),
                setRefMap rm frameSelector (copy_entries (cdp_entries a)),
                [TierA])))))))"

definition snapshot_frame_tool ::
  "nat \<Rightarrow> page \<Rightarrow> browser_context option \<Rightarrow> ref_map \<Rightarrow> string
     \<Rightarrow> tool_result \<times> ref_map \<times> tier list" where
  "snapshot_frame_tool depth pg context rm frameSelector =
     (if \<not> truthy frameSelector then (toolResult ''Missing frameSelector'' True, rm, [])
      else
        (let isChained = includes_chain frameSelector;
             failed = toolResult (''Frame snapshot failed (cross-origin or invalid selector): ''
                                  @ frameSelector) True
         in if \<not> isChained then
              (case snapshotFrame pg rm frameSelector of
                 (Inr result, rm') \<Rightarrow> (toolResult (result_text result) False, rm', [InPage])
               | (Inl e, rm') \<Rightarrow>
                  (case cdp_snapshot depth context rm' frameSelector of
                     (Some t, rm'', tiers) \<Rightarrow> (toolResult t False, rm'', InPage # tiers)
                   | (None, rm'', tiers) \<Rightarrow> (failed, rm'', InPage # tiers)))
            else
              (case cdp_snapshot depth context rm frameSelector of
                 (Some t, rm'', tiers) \<Rightarrow> (toolResult t False, rm'', tiers)
               | (None, rm'', tiers) \<Rightarrow> (failed, rm'', tiers))))"

section \<open>The snapshot of the page with its iframes (snapshot.ts)\<close>

text \<open>
  \<open>snapshotMainFrameWithIframes\<close>. What \<open>frame.frameElement()\<close> gives for a child frame
  of the page: it throws, or there is no element, or there is one with its \<open>id\<close> and
  \<open>name\<close> properties. The frames are \<open>page.frames().slice(1)\<close>.
\<close>

datatype frame_owner = OwnerThrows | NoOwner | Owner string string

definition iframe_selector :: "frame_owner \<Rightarrow> nat \<Rightarrow> string" where
  "iframe_selector ow i =
     (case ow of
        Owner ident nm \<Rightarrow>
          if truthy ident then ''iframe#'' @ ident
          else if truthy nm then ''iframe[name='' @ [CHR 0x22] @ nm @ [CHR 0x22] @ '']''
          else nth_of_type (i + 1)
      | _ \<Rightarrow> nth_of_type (i + 1))"

text \<open>
  The session and the flat list of frame ids the function prepares: the session is
  kept when a later call of the preparation throws, the list is then empty.
\<close>

definition prepare_cdp :: "browser_context option \<Rightarrow> cdp_session option \<times> string list" where
  "prepare_cdp context =
     (case context of
        None \<Rightarrow> (None, [])
      | Some ctx \<Rightarrow>
         (case newCDPSession ctx of
            None \<Rightarrow> (None, [])
          | Some cdp \<Rightarrow>
              if \<not> can_send cdp ''Page.enable'' \<or> \<not> can_send cdp ''Accessibility.enable''
              then (Some cdp, [])
              else (case getFrameTree cdp of
                      Reply (Some r) \<Rightarrow> (Some cdp, collect r)
                    | _ \<Rightarrow> (Some cdp, []))))"

text \<open>The entry this function stores for a Tier A entry: it copies no viewport point.\<close>

definition to_handle_entry :: "CDPRefEntry \<Rightarrow> RefEntry" where
  "to_handle_entry e =
     \<lparr>role = cdp_role e, name = cdp_name e, frameId = Some (cdp_frameId e),
      backendDOMNodeId = cdp_backendDOMNodeId e, viewportClickPoint = None\<rparr>"

definition copy_handles :: "(string, CDPRefEntry) jsmap \<Rightarrow> entry_set" where
  "copy_handles es = fold (\<lambda>(ref, e) acc. AList.update ref (to_handle_entry e) acc) es []"

fun iframes_loop ::
  "nat \<Rightarrow> page \<Rightarrow> cdp_session option \<Rightarrow> string list \<Rightarrow> nat \<Rightarrow> frame_owner list
     \<Rightarrow> ref_map \<times> string list \<Rightarrow> ref_map \<times> string list" where
  "iframes_loop depth pg cdp flatFrameIds i [] acc = acc"
| "iframes_loop depth pg cdp flatFrameIds i (ow # rest) (rm, lines) =
     (let selector = iframe_selector ow i in
      iframes_loop depth pg cdp flatFrameIds (Suc i) rest
        (case snapshotFrame pg rm selector of
           (Inr result, rm1) \<Rightarrow> (rm1, lines @ [[], result_text result])
         | (Inl e, rm1) \<Rightarrow>
            (case cdp of
               None \<Rightarrow> (rm1, lines @ [[], ''- iframe ['' @ selector
                                            @ ''] (cross-origin or unavailable)''])
             | Some session \<Rightarrow>
                 if length flatFrameIds > i + 1 then
                   (case snapshotFrameViaCDP depth session (flatFrameIds ! (i + 1)) selector
                           (''f'' @ string_of_nat (i + 1) @ ''e'') of
                      Some cdpResult \<Rightarrow>
                        (setRefMap rm1 selector (copy_handles (cdp_entries cdpResult)),
                         lines @ [[], cdp_text cdpResult])
                    | None \<Rightarrow> (rm1, lines @ [[], ''- iframe ['' @ selector
                                                  @ ''] (CDP snapshot failed)'']))
                 else (rm1, lines @ [[], ''- iframe ['' @ selector
                                          @ ''] (cross-origin or unavailable)'']))))"

definition snapshotMainFrameWithIframes ::
  "nat \<Rightarrow> page \<Rightarrow> frame_owner list \<Rightarrow> browser_context option \<Rightarrow> ref_map \<Rightarrow> string \<times> ref_map" where
  "snapshotMainFrameWithIframes depth pg frames context rm =
     (case snapshotMainFrame pg rm of
        (main, rm0) \<Rightarrow>
          (case prepare_cdp context of
             (cdp, flatFrameIds) \<Rightarrow>
               (case iframes_loop depth pg cdp flatFrameIds 0 frames (rm0, [result_text main]) of
                  (rm1, lines) \<Rightarrow> (join_lines lines, rm1))))"

section \<open>Concrete inputs\<close>

text \<open>Pages, stores and protocol replies on which the theorems below are run.\<close>

text \<open>One frame \<open>iframe\<close> holding a button, and the same frame after the page changed, holding a link.\<close>

definition old_page :: page where
  "old_page = \<lparr>main_document = None,
     frame_document = (\<lambda>chain. if chain = [''iframe''] then
        Some \<lparr>focusable = [\<lparr>elem_id = 1, tagName = ''BUTTON'', attributes = [],
                             as_input = None, textContent = Some ''Old''\<rparr>], fallback = []\<rparr> else None),
     getByRole = (\<lambda>chain r n. []), actionable = (\<lambda>a e. True), focused = (\<lambda>chain. None)\<rparr>"

definition new_page :: page where
  "new_page = \<lparr>main_document = None,
     frame_document = (\<lambda>chain. if chain = [''iframe''] then
        Some \<lparr>focusable = [\<lparr>elem_id = 2, tagName = ''A'', attributes = [],
                             as_input = None, textContent = Some ''New''\<rparr>], fallback = []\<rparr> else None),
     getByRole = (\<lambda>chain r n. if chain = [''iframe''] \<and> r = ''link'' \<and> n = ''New'' then [2] else []),
     actionable = (\<lambda>a e. True), focused = (\<lambda>chain. None)\<rparr>"

definition new_document :: document where
  "new_document = \<lparr>focusable = [\<lparr>elem_id = 2, tagName = ''A'', attributes = [],
                             as_input = None, textContent = Some ''New''\<rparr>], fallback = []\<rparr>"

text \<open>The world after one snapshot of the frame of \<open>new_page\<close>, with no event yet.\<close>

definition new_world :: world where
  "new_world = \<lparr>refMap = snd (snapshotFrame new_page [] ''iframe''), events = []\<rparr>"




text \<open>A page whose top-level document holds one button, and no frame.\<close>

definition main_page :: page where
  "main_page = \<lparr>main_document =
        Some \<lparr>focusable = [\<lparr>elem_id = 1, tagName = ''BUTTON'', attributes = [],
                             as_input = None, textContent = Some ''Go''\<rparr>], fallback = []\<rparr>,
     frame_document = (\<lambda>chain. None),
     getByRole = (\<lambda>chain r n. if chain = [] \<and> r = ''button'' \<and> n = ''Go'' then [1] else []),
     actionable = (\<lambda>a e. True), focused = (\<lambda>chain. None)\<rparr>"

text \<open>An input with a title and a placeholder, and a submit input with no value and no text.\<close>

definition titled_input :: element where
  "titled_input =
     \<lparr>elem_id = 1, tagName = ''INPUT'',
      attributes = [(''title'', '' Your name ''), (''placeholder'', ''Name'')],
      as_input = Some \<lparr>placeholder = ''Name'', input_type = ''text'', input_value = ''x''\<rparr>,
      textContent = Some []\<rparr>"

definition bare_submit :: element where
  "bare_submit =
     \<lparr>elem_id = 2, tagName = ''INPUT'', attributes = [(''type'', ''submit'')],
      as_input = Some \<lparr>placeholder = [], input_type = ''submit'', input_value = []\<rparr>,
      textContent = Some []\<rparr>"

text \<open>
  A protocol session over a page with one cross-origin frame \<open>F2\<close>, owned by
  \<open><iframe id="player">\<close> whose content box starts at (50, 300). The accessibility tree
  of the frame is empty; its layout snapshot has one \<open>DIV\<close> with \<open>role="button"\<close> and the
  box (100, 200, 40, 20), and the document is scrolled by 10 to the right.
\<close>

definition layout_document :: DocSnapshot where
  "layout_document =
     \<lparr>doc_frameId = Some 0,
      doc_nodes = Some \<lparr>nodeName = Some [1], node_attributes = Some [[2, 3]], isClickable = None\<rparr>,
      layout_nodeIndex = Some [0],
      layout_bounds = Some [[100, 200, 40, 20]],
      scrollOffsetX = Some 10,
      scrollOffsetY = None\<rparr>"

definition layout_capture :: captured where
  "layout_capture =
     \<lparr>documents = Some [layout_document], strings = Some [''F2'', ''DIV'', ''role'', ''button'']\<rparr>"

definition layout_session :: cdp_session where
  "layout_session =
     \<lparr>can_send = (\<lambda>m. True),
      getFrameTree = Reply (Some (Ftn ''F1'' [Ftn ''F2'' []])),
      getFrameOwner = (\<lambda>f. if f = ''F2'' then Reply (Some 9) else Reply None),
      requestNode = (\<lambda>b. if b = 9 then Reply (Some 109) else Reply None),
      getAttributes = (\<lambda>n. if n = 109 then Reply (Some [''id'', ''player'']) else Throws),
      getBoxModel = (\<lambda>n. if n = 109 then Reply (Some [50, 300, 850, 300, 850, 900, 50, 900])
                         else Reply None),
      getFullAXTree = (\<lambda>f. Reply (Some [])),
      captureSnapshot = Reply layout_capture\<rparr>"



text \<open>
  The accessibility tree of a frame \<open>F2\<close>: a root of role \<open>RootWebArea\<close> with two
  children, a button named \<open>Play\<close> and a node of role \<open>generic\<close> without a name; and a
  session that replies with it.
\<close>

definition ax_root :: AXNode where
  "ax_root = \<lparr>ax_nodeId = Some ''1'', ax_parentId = None, ax_ignored = Some False,
              ax_role_value = Some ''RootWebArea'', ax_name_value = Some ''Lesson'',
              ax_backendDOMNodeId = Some 11, ax_frameId = Some ''F2'',
              ax_childIds = Some [''2'', ''3'']\<rparr>"

definition ax_button :: AXNode where
  "ax_button = \<lparr>ax_nodeId = Some ''2'', ax_parentId = Some ''1'', ax_ignored = Some False,
                ax_role_value = Some ''button'', ax_name_value = Some '' Play '',
                ax_backendDOMNodeId = Some 12, ax_frameId = None, ax_childIds = None\<rparr>"

definition ax_generic :: AXNode where
  "ax_generic = \<lparr>ax_nodeId = Some ''3'', ax_parentId = Some ''1'', ax_ignored = None,
                 ax_role_value = Some ''generic'', ax_name_value = None,
                 ax_backendDOMNodeId = Some 13, ax_frameId = None, ax_childIds = Some []\<rparr>"

definition ax_nodes :: "AXNode list" where
  "ax_nodes = [ax_root, ax_button, ax_generic]"

definition ax_session :: cdp_session where
  "ax_session = layout_session\<lparr>getFullAXTree := (\<lambda>f. if f = ''F2'' then Reply (Some ax_nodes) else Throws)\<rparr>"

definition play_entry :: CDPRefEntry where
  "play_entry = \<lparr>cdp_role = ''button'', cdp_name = ''Play'', cdp_frameId = ''F2'',
                  cdp_backendDOMNodeId = Some 12, cdp_viewportClickPoint = None\<rparr>"




text \<open>
  A page none of whose frames the in-page collector can reach, and the session of the
  layout example when the layout snapshot cannot be captured either.
\<close>

definition cross_page :: page where
  "cross_page = \<lparr>main_document = None, frame_document = (\<lambda>chain. None),
                 getByRole = (\<lambda>chain r n. []), actionable = (\<lambda>a e. True),
                 focused = (\<lambda>chain. None)\<rparr>"

definition bare_session :: cdp_session where
  "bare_session = layout_session\<lparr>captureSnapshot := Throws\<rparr>"

text \<open>
  A page whose nested frame the in-page collector can reach through the chain
  \<open>iframe#outer >> iframe#player\<close>, and the browser contexts of the sessions above.
\<close>

definition chained_page :: page where
  "chained_page = \<lparr>main_document = None,
     frame_document = (\<lambda>chain. if chain = [''iframe#outer'', ''iframe#player'']
                                  then Some new_document else None),
     getByRole = (\<lambda>chain r n. []), actionable = (\<lambda>a e. True), focused = (\<lambda>chain. None)\<rparr>"

definition ax_context :: browser_context where
  "ax_context = \<lparr>newCDPSession = Some ax_session\<rparr>"

definition bare_context :: browser_context where
  "bare_context = \<lparr>newCDPSession = Some bare_session\<rparr>"

definition none_matched :: tool_result where
  "none_matched =
     \<lparr>tool_text = join_lines [''- frame iframe#player [ref=f1e0]:'',
                               ''  - (CDP: 0 AX nodes, none matched)''],
      isError = False\<rparr>"

text \<open>
  A session that resolves the handle of the \<open>Play\<close> button to a node whose content box
  is the quadrilateral (10, 20), (30, 20), (30, 40), (10, 40); the page on which the
  locator for a button named \<open>Play\<close> in the frame finds element 5; and the world after
  the tool stored the Tier A entries of the frame.
\<close>

definition click_session :: cdp_session where
  "click_session =
     ax_session\<lparr>requestNode := (\<lambda>b. if b = 12 then Reply (Some 112) else Reply None),
                getBoxModel := (\<lambda>n. if n = 112 then Reply (Some [10, 20, 30, 20, 30, 40, 10, 40])
                                     else Reply None)\<rparr>"

definition click_context :: browser_context where
  "click_context = \<lparr>newCDPSession = Some click_session\<rparr>"

definition play_page :: page where
  "play_page = \<lparr>main_document = None, frame_document = (\<lambda>chain. None),
     getByRole = (\<lambda>chain r n. if chain = [''iframe#player''] \<and> r = ''button'' \<and> n = ''Play''
                                then [5] else []),
     actionable = (\<lambda>a e. True), focused = (\<lambda>chain. None)\<rparr>"

definition play_world :: world where
  "play_world =
     \<lparr>refMap = fst (snd (snapshot_frame_tool 3 cross_page (Some ax_context) [] ''iframe#player'')),
      events = []\<rparr>"

section \<open>Decimal numerals and the references of a snapshot\<close>

lemma digit_char_inj: "a < 10 \<Longrightarrow> b < 10 \<Longrightarrow> digit_char a = digit_char b \<Longrightarrow> a = b"
proof -
  assume a: "a < 10" and b: "b < 10" and e: "digit_char a = digit_char b"
  have d: "distinct ''0123456789''" by simp
  have "length ''0123456789'' = 10" by simp
  with a b e d show ?thesis
    unfolding digit_char_def by (metis nth_eq_iff_index_eq)
qed

lemma string_of_nat_nonempty: "string_of_nat n \<noteq> []"
  by (subst string_of_nat.simps) simp

lemma string_of_nat_inj: "string_of_nat n = string_of_nat m \<Longrightarrow> n = m"
proof (induction n arbitrary: m rule: string_of_nat.induct)
  case (1 n)
  show ?case
  proof (cases "n < 10")
    case True
    then have sn: "string_of_nat n = [digit_char n]" by (subst string_of_nat.simps) simp
    show ?thesis
    proof (cases "m < 10")
      case True
      then have "string_of_nat m = [digit_char m]" by (subst string_of_nat.simps) simp
      with sn "1.prems" have "digit_char n = digit_char m" by simp
      with \<open>n < 10\<close> \<open>m < 10\<close> show ?thesis by (rule digit_char_inj)
    next
      case False
      then have "string_of_nat m = string_of_nat (m div 10) @ [digit_char (m mod 10)]"
        by (subst string_of_nat.simps) simp
      with sn "1.prems" have "string_of_nat (m div 10) = []" by simp
      then show ?thesis using string_of_nat_nonempty by blast
    qed
  next
    case False
    then have sn: "string_of_nat n = string_of_nat (n div 10) @ [digit_char (n mod 10)]"
      by (subst string_of_nat.simps) simp
    show ?thesis
    proof (cases "m < 10")
      case True
      then have "string_of_nat m = [digit_char m]" by (subst string_of_nat.simps) simp
      with sn "1.prems" have "string_of_nat (n div 10) = []" by simp
      then show ?thesis using string_of_nat_nonempty by blast
    next
      case mf: False
      then have sm: "string_of_nat m = string_of_nat (m div 10) @ [digit_char (m mod 10)]"
        by (subst string_of_nat.simps) simp
      from sn sm "1.prems" have e1: "string_of_nat (n div 10) = string_of_nat (m div 10)"
        and e2: "digit_char (n mod 10) = digit_char (m mod 10)" by simp_all
      from "1.IH"[OF False e1] have d: "n div 10 = m div 10" .
      have "n mod 10 = m mod 10" by (rule digit_char_inj[OF _ _ e2]) simp_all
      with d show ?thesis by (metis div_mult_mod_eq)
    qed
  qed
qed

lemma assign_refs_other:
  "(\<forall>k<length ns. r \<noteq> p @ string_of_nat (i + k + 1)) \<Longrightarrow>
     map_of (fst (assign_refs p i ns acc)) r = map_of (fst acc) r"
proof (induction ns arbitrary: i acc)
  case Nil
  then show ?case by simp
next
  case (Cons node rest)
  obtain es ls where acc: "acc = (es, ls)" by (cases acc)
  have r0: "r \<noteq> p @ string_of_nat (i + 1)" using Cons.prems by force
  have rest: "\<forall>k<length rest. r \<noteq> p @ string_of_nat (Suc i + k + 1)"
    using Cons.prems by fastforce
  show ?case
    using Cons.IH[OF rest] r0 by (simp add: acc Let_def update_conv')
qed

lemma assign_refs_hit:
  "k < length ns \<Longrightarrow>
     map_of (fst (assign_refs p i ns acc)) (p @ string_of_nat (i + k + 1)) = Some (locator_entry (ns ! k))"
proof (induction ns arbitrary: i k acc)
  case Nil
  then show ?case by simp
next
  case (Cons node rest)
  obtain es ls where acc: "acc = (es, ls)" by (cases acc)
  show ?case
  proof (cases k)
    case 0
    have "\<forall>j<length rest. p @ string_of_nat (i + 0 + 1) \<noteq> p @ string_of_nat (Suc i + j + 1)"
      using string_of_nat_inj by fastforce
    from assign_refs_other[OF this] show ?thesis
      by (simp add: acc 0 Let_def update_conv' locator_entry_def)
  next
    case (Suc k')
    with Cons.prems have "k' < length rest" by simp
    from Cons.IH[OF this, of "Suc i"] show ?thesis
      by (simp add: acc Suc Let_def)
  qed
qed

lemma assign_refs_lines:
  "length (snd (assign_refs p i ns acc)) = length (snd acc) + length ns"
proof (induction ns arbitrary: i acc)
  case Nil
  then show ?case by simp
next
  case (Cons node rest)
  obtain es ls where acc: "acc = (es, ls)" by (cases acc)
  show ?case using Cons.IH by (simp add: acc Let_def)
qed

lemma lookup_setRefMap: "getRefEntry (setRefMap rm K es) K r = map_of es r"
  by (simp add: getRefEntry_def setRefMap_def update_conv')

lemma lookup_setRefMap_other: "K' \<noteq> K \<Longrightarrow> getRefEntry (setRefMap rm K es) K' r = getRefEntry rm K' r"
  by (simp add: getRefEntry_def setRefMap_def update_conv')

lemma snapshotFrame_store:
  assumes "selector_parts K \<noteq> []" and "frame_document pg (selector_parts K) = Some doc"
  shows "snd (snapshotFrame pg rm K) =
           setRefMap rm K (fst (assign_refs ''f1e'' 0 (SNAPSHOT_SCRIPT doc)
              ([], [''- frame '' @ K @ '' [ref='' @ ''f1e'' @ ''0]:''])))"
  using assms
  by (simp add: snapshotFrame_def getChainedFrameLocator_def Let_def split: prod.splits)

lemma snapshotMainFrame_store:
  "snd (snapshotMainFrame pg rm) =
     setRefMap rm MAIN_FRAME_KEY
       (fst (assign_refs REF_PREFIX_MAIN 0
               (case main_document pg of None \<Rightarrow> [] | Some doc \<Rightarrow> SNAPSHOT_SCRIPT doc)
               ([], [''- document [ref='' @ REF_PREFIX_MAIN @ ''0]:''])))"
  by (simp add: snapshotMainFrame_def Let_def split: prod.splits)

section \<open>Reference ids across snapshots\<close>

text \<open>
  Claim C1, as amended. A snapshot through the in-page collector numbers the elements
  it finds from 1 under a fixed prefix (\<open>f1e\<close> for a frame, \<open>s1e\<close> for the top-level
  document), whatever the store held before: after it, the reference with number \<open>k\<close>
  is found under the frame key exactly when the new snapshot has a \<open>k\<close>-th element, and
  it then resolves to that element of the new snapshot. A reference issued by an
  earlier snapshot of the key is therefore not found only when its number exceeds the
  new count.
\<close>

theorem resnapshot_assigns_by_position:
  "(selector_parts K \<noteq> [] \<and> frame_document pg (selector_parts K) = Some doc \<longrightarrow>
      (\<forall>k<length (SNAPSHOT_SCRIPT doc).
          getRefEntry (snd (snapshotFrame pg rm K)) K (''f1e'' @ string_of_nat (k + 1))
            = Some (locator_entry (SNAPSHOT_SCRIPT doc ! k)))
    \<and> (\<forall>r. (\<forall>k<length (SNAPSHOT_SCRIPT doc). r \<noteq> ''f1e'' @ string_of_nat (k + 1))
            \<longrightarrow> getRefEntry (snd (snapshotFrame pg rm K)) K r = None))
   \<and> (main_document pg = Some main_doc \<longrightarrow>
      (\<forall>k<length (SNAPSHOT_SCRIPT main_doc).
          getRefEntry (snd (snapshotMainFrame pg rm)) MAIN_FRAME_KEY (''s1e'' @ string_of_nat (k + 1))
            = Some (locator_entry (SNAPSHOT_SCRIPT main_doc ! k)))
    \<and> (\<forall>r. (\<forall>k<length (SNAPSHOT_SCRIPT main_doc). r \<noteq> ''s1e'' @ string_of_nat (k + 1))
            \<longrightarrow> getRefEntry (snd (snapshotMainFrame pg rm)) MAIN_FRAME_KEY r = None))"
proof (intro conjI allI impI)
  fix k
  assume a: "selector_parts K \<noteq> [] \<and> frame_document pg (selector_parts K) = Some doc"
    and "k < length (SNAPSHOT_SCRIPT doc)"
  from assign_refs_hit[OF this(2), of "''f1e''" 0] a
  show "getRefEntry (snd (snapshotFrame pg rm K)) K (''f1e'' @ string_of_nat (k + 1))
          = Some (locator_entry (SNAPSHOT_SCRIPT doc ! k))"
    by (simp add: snapshotFrame_store lookup_setRefMap)
next
  fix r
  assume a: "selector_parts K \<noteq> [] \<and> frame_document pg (selector_parts K) = Some doc"
    and "\<forall>k<length (SNAPSHOT_SCRIPT doc). r \<noteq> ''f1e'' @ string_of_nat (k + 1)"
  then have "\<forall>k<length (SNAPSHOT_SCRIPT doc). r \<noteq> ''f1e'' @ string_of_nat (0 + k + 1)" by simp
  from assign_refs_other[OF this] a
  show "getRefEntry (snd (snapshotFrame pg rm K)) K r = None"
    by (simp add: snapshotFrame_store lookup_setRefMap)
next
  fix k
  assume a: "main_document pg = Some main_doc" and "k < length (SNAPSHOT_SCRIPT main_doc)"
  from assign_refs_hit[OF this(2), of "''s1e''" 0] a
  show "getRefEntry (snd (snapshotMainFrame pg rm)) MAIN_FRAME_KEY (''s1e'' @ string_of_nat (k + 1))
          = Some (locator_entry (SNAPSHOT_SCRIPT main_doc ! k))"
    by (simp add: snapshotMainFrame_store lookup_setRefMap REF_PREFIX_MAIN_def)
next
  fix r
  assume a: "main_document pg = Some main_doc"
    and "\<forall>k<length (SNAPSHOT_SCRIPT main_doc). r \<noteq> ''s1e'' @ string_of_nat (k + 1)"
  then have "\<forall>k<length (SNAPSHOT_SCRIPT main_doc). r \<noteq> ''s1e'' @ string_of_nat (0 + k + 1)" by simp
  from assign_refs_other[OF this] a
  show "getRefEntry (snd (snapshotMainFrame pg rm)) MAIN_FRAME_KEY r = None"
    by (simp add: snapshotMainFrame_store lookup_setRefMap REF_PREFIX_MAIN_def)
qed

theorem resnapshot_assigns_by_position_witness:
  "getRefEntry (snd (snapshotFrame new_page (snd (snapshotFrame old_page [] ''iframe'')) ''iframe''))
       ''iframe'' ''f1e1''
     = Some \<lparr>role = ''link'', name = ''New'', frameId = None, backendDOMNodeId = None,
             viewportClickPoint = None\<rparr>
   \<and> getRefEntry (snd (snapshotFrame new_page (snd (snapshotFrame old_page [] ''iframe'')) ''iframe''))
       ''iframe'' ''f1e2'' = None
   \<and> getRefEntry (snd (snapshotMainFrame main_page (snd (snapshotMainFrame main_page []))))
       MAIN_FRAME_KEY ''s1e1''
     = Some \<lparr>role = ''button'', name = ''Go'', frameId = None, backendDOMNodeId = None,
             viewportClickPoint = None\<rparr>"
proof -
  have h: "selector_parts ''iframe'' \<noteq> []
           \<and> frame_document new_page (selector_parts ''iframe'') = Some new_document"
    by code_simp
  have raw: "SNAPSHOT_SCRIPT new_document = [\<lparr>raw_role = ''link'', raw_name = ''New''\<rparr>]"
    by code_simp
  have s1: "string_of_nat (Suc 0) = ''1''" by code_simp
  note t = resnapshot_assigns_by_position[of "''iframe''" new_page new_document
             "snd (snapshotFrame old_page [] ''iframe'')"]
  from t h have a: "getRefEntry (snd (snapshotFrame new_page (snd (snapshotFrame old_page [] ''iframe'')) ''iframe''))
       ''iframe'' ''f1e1'' = Some (locator_entry \<lparr>raw_role = ''link'', raw_name = ''New''\<rparr>)"
    by (simp add: raw s1)
  from t h have "''f1e2'' \<noteq> ''f1e1'' \<longrightarrow>
     getRefEntry (snd (snapshotFrame new_page (snd (snapshotFrame old_page [] ''iframe'')) ''iframe''))
       ''iframe'' ''f1e2'' = None"
    unfolding raw by (simp add: s1)
  then have b: "getRefEntry (snd (snapshotFrame new_page (snd (snapshotFrame old_page [] ''iframe'')) ''iframe''))
       ''iframe'' ''f1e2'' = None"
    by simp
  have c: "getRefEntry (snd (snapshotMainFrame main_page (snd (snapshotMainFrame main_page []))))
       MAIN_FRAME_KEY ''s1e1''
     = Some \<lparr>role = ''button'', name = ''Go'', frameId = None, backendDOMNodeId = None,
             viewportClickPoint = None\<rparr>"
    by code_simp
  from a b c show ?thesis by (simp add: locator_entry_def)
qed

text \<open>
  Claim C1 as stated fails: \<open>f1e1\<close>, issued for the button of the first snapshot, is in
  the entry set of the second snapshot, where it names the link, and a click on it
  succeeds and acts on the link.
\<close>

theorem old_ref_resolves_after_resnapshot:
  "getRefEntry (snd (snapshotFrame old_page [] ''iframe'')) ''iframe'' ''f1e1''
     = Some \<lparr>role = ''button'', name = ''Old'', frameId = None, backendDOMNodeId = None,
             viewportClickPoint = None\<rparr>
   \<and> getRefEntry (snd (snapshotFrame new_page (snd (snapshotFrame old_page [] ''iframe'')) ''iframe''))
       ''iframe'' ''f1e1''
     = Some \<lparr>role = ''link'', name = ''New'', frameId = None, backendDOMNodeId = None,
             viewportClickPoint = None\<rparr>
   \<and> click new_page
        \<lparr>refMap = snd (snapshotFrame new_page (snd (snapshotFrame old_page [] ''iframe'')) ''iframe''),
         events = []\<rparr> ''f1e1'' (Some ''iframe'') None
     = (Inr (), \<lparr>refMap = snd (snapshotFrame new_page (snd (snapshotFrame old_page [] ''iframe'')) ''iframe''),
                 events = [Clicked 2]\<rparr>)"
  by code_simp

section \<open>Actions on a reference that is not stored\<close>

lemma getLocatorForRef_missing:
  "getRefEntry rm (frame_key fs) R = None \<Longrightarrow> getLocatorForRef rm fs R = Inl (RefNotFound R)"
  by (simp add: getLocatorForRef_def)

text \<open>
  Claim C3, as amended. When the store holds no entry for reference \<open>R\<close> under the
  frame key (also when nothing was ever stored for the key), \<open>click\<close>, \<open>hover\<close> and
  \<open>selectOption\<close> fail with \<open>Ref not found\<close> and return the world as it was: the store is
  unchanged and no event was dispatched. \<open>type\<close> does the same for every non-empty
  \<open>R\<close>.
\<close>

theorem missing_ref_fails:
  assumes "getRefEntry (refMap w) (frame_key fs) R = None"
  shows "click pg w R fs context = (Inl (RefNotFound R), w)
       \<and> hover pg w R fs = (Inl (RefNotFound R), w)
       \<and> selectOption pg w R vals fs = (Inl (RefNotFound R), w)
       \<and> (R \<noteq> [] \<longrightarrow> type_text pg w txt (Some R) fs submit = (Inl (RefNotFound R), w))"
proof (intro conjI impI)
  show "click pg w R fs context = (Inl (RefNotFound R), w)"
    using assms by (simp add: click_def)
  show "hover pg w R fs = (Inl (RefNotFound R), w)"
    by (simp add: hover_def getLocatorForRef_missing[OF assms])
  show "selectOption pg w R vals fs = (Inl (RefNotFound R), w)"
    by (simp add: selectOption_def getLocatorForRef_missing[OF assms])
  assume "R \<noteq> []"
  then show "type_text pg w txt (Some R) fs submit = (Inl (RefNotFound R), w)"
    by (simp add: type_text_def if_truthy_def truthy_def getLocatorForRef_missing[OF assms])
qed

theorem missing_ref_fails_witness:
  "getRefEntry (refMap new_world) (frame_key (Some ''iframe'')) ''f1e2'' = None
   \<and> click new_page new_world ''f1e2'' (Some ''iframe'') None = (Inl (RefNotFound ''f1e2''), new_world)
   \<and> hover new_page new_world ''f1e2'' (Some ''iframe'') = (Inl (RefNotFound ''f1e2''), new_world)
   \<and> selectOption new_page new_world ''f1e2'' [''a''] (Some ''iframe'') = (Inl (RefNotFound ''f1e2''), new_world)
   \<and> type_text new_page new_world ''hello'' (Some ''f1e2'') (Some ''iframe'') True
        = (Inl (RefNotFound ''f1e2''), new_world)"
proof -
  have h: "getRefEntry (refMap new_world) (frame_key (Some ''iframe'')) ''f1e2'' = None"
    by code_simp
  from missing_ref_fails[OF h, of new_page None "[''a'']" "''hello''" True] h
  show ?thesis by simp
qed

text \<open>
  Claim C3 as stated fails for \<open>type\<close> at the empty reference, which no entry set
  holds: \<open>options.ref\<close> is then falsy, so \<open>type\<close> takes its branch without a reference,
  types on the keyboard and succeeds.
\<close>

theorem empty_ref_types_into_focus:
  "getRefEntry (refMap new_world) (frame_key None) [] = None
   \<and> type_text new_page new_world ''hello'' (Some []) None False
       = (Inr (), new_world\<lparr>events := [KeyboardType ''hello'']\<rparr>)"
  by code_simp

section \<open>What a locator reference resolves to\<close>



lemma click_by_locator:
  assumes "getRefEntry (refMap w) (frame_key fs) r = Some e"
    and "context = None \<or> (backendDOMNodeId e = None \<and> viewportClickPoint e = None)"
  shows "click pg w r fs context =
           (case getLocatorForRef (refMap w) fs r of
              Inl err \<Rightarrow> (Inl err, w)
            | Inr loc \<Rightarrow> (case resolve pg ''click'' loc of
                             Inl err \<Rightarrow> (Inl err, w)
                           | Inr el \<Rightarrow> (Inr (), emit w [Clicked el])))"
  using assms by (auto simp add: click_def)




section \<open>An in-page collector that cannot reach its frame\<close>

text \<open>
  Claim C9, as amended. For a frame selector with at least one part, when the script
  cannot be evaluated in the frame \<open>snapshotFrame\<close> throws and leaves the store as it
  was. For the top-level document \<open>snapshotMainFrame\<close> catches the failure and goes on
  with an empty list: it returns a result whose text carries the "no focusable
  elements" line, and it overwrites the entry set of the empty frame key with the
  empty set.
\<close>

theorem unreachable_frame_throws_main_frame_does_not:
  "(selector_parts K \<noteq> [] \<and> frame_document pg (selector_parts K) = None
      \<longrightarrow> snapshotFrame pg rm K = (Inl FrameEvaluateFailed, rm))
   \<and> (main_document pg = None
      \<longrightarrow> snapshotMainFrame pg rm =
            (\<lparr>result_text = join_lines [''- document [ref=s1e0]:'',
                 ''  - (no focusable elements; page may have loaded in an iframe)''],
              result_refPrefix = ''s1e''\<rparr>,
             setRefMap rm MAIN_FRAME_KEY []))"
  by (simp add: snapshotFrame_def getChainedFrameLocator_def snapshotMainFrame_def
        REF_PREFIX_MAIN_def Let_def)

theorem unreachable_frame_throws_main_frame_does_not_witness:
  "snapshotFrame main_page (snd (snapshotMainFrame main_page [])) ''iframe''
     = (Inl FrameEvaluateFailed, snd (snapshotMainFrame main_page []))
   \<and> getRefEntry (snd (snapshotMainFrame old_page (snd (snapshotMainFrame main_page []))))
        MAIN_FRAME_KEY ''s1e1'' = None"
proof -
  have h1: "selector_parts ''iframe'' \<noteq> [] \<and> frame_document main_page (selector_parts ''iframe'') = None"
    by code_simp
  have h2: "main_document old_page = None" by code_simp
  from unreachable_frame_throws_main_frame_does_not
         [of "''iframe''" main_page "snd (snapshotMainFrame main_page [])"] h1
  have a: "snapshotFrame main_page (snd (snapshotMainFrame main_page [])) ''iframe''
     = (Inl FrameEvaluateFailed, snd (snapshotMainFrame main_page []))" by blast
  from unreachable_frame_throws_main_frame_does_not
         [of "''iframe''" old_page "snd (snapshotMainFrame main_page [])"] h2
  have "snd (snapshotMainFrame old_page (snd (snapshotMainFrame main_page [])))
          = setRefMap (snd (snapshotMainFrame main_page [])) MAIN_FRAME_KEY []" by simp
  then have b: "getRefEntry (snd (snapshotMainFrame old_page (snd (snapshotMainFrame main_page []))))
        MAIN_FRAME_KEY ''s1e1'' = None"
    by (simp add: getRefEntry_def setRefMap_def update_conv')
  from a b show ?thesis by simp
qed

text \<open>
  Claim C9 as stated fails for the top-level document: with the script context out
  of reach, the snapshot of the main frame returns a result instead of throwing, and
  the reference \<open>s1e1\<close> that the store held for the empty frame key is gone.
\<close>

theorem main_frame_failure_is_swallowed:
  "main_document old_page = None
   \<and> getRefEntry (snd (snapshotMainFrame main_page [])) MAIN_FRAME_KEY ''s1e1''
       = Some \<lparr>role = ''button'', name = ''Go'', frameId = None, backendDOMNodeId = None,
               viewportClickPoint = None\<rparr>
   \<and> snapshotMainFrame old_page (snd (snapshotMainFrame main_page []))
       = (\<lparr>result_text = join_lines [''- document [ref=s1e0]:'',
              ''  - (no focusable elements; page may have loaded in an iframe)''],
           result_refPrefix = ''s1e''\<rparr>,
          [([], [])])
   \<and> getRefEntry (snd (snapshotMainFrame old_page (snd (snapshotMainFrame main_page []))))
        MAIN_FRAME_KEY ''s1e1'' = None"
  by code_simp

section \<open>Names of the in-page collector\<close>

text \<open>
  Claim C5, as amended. \<open>getName\<close> takes the first source that applies, in the order
  aria-label, title, placeholder of an input element, value of a submit, button or
  reset input, text content: a non-empty aria-label gives its trimmed value; without
  one, a non-empty title gives its trimmed value, whatever the placeholder, the value
  and the text are; without both, an input with a non-empty placeholder gives the
  trimmed placeholder; without that, a submit, button or reset input gives its value
  when it is not empty and otherwise its trimmed text cut to 100 characters, which may
  be empty; every other element gives its trimmed text cut to 200 characters, or
  \<open>(unnamed)\<close> when that is empty.
\<close>

theorem name_precedence:
  "(\<forall>a. if_truthy (getAttribute el ''aria-label'') = Some a \<longrightarrow> getName el = trim a)
   \<and> (if_truthy (getAttribute el ''aria-label'') = None \<longrightarrow>
        (\<forall>t. if_truthy (getAttribute el ''title'') = Some t \<longrightarrow> getName el = trim t))
   \<and> (if_truthy (getAttribute el ''aria-label'') = None
        \<and> if_truthy (getAttribute el ''title'') = None \<longrightarrow>
        (\<forall>i. as_input el = Some i \<and> truthy (placeholder i) \<longrightarrow> getName el = trim (placeholder i))
      \<and> (\<forall>i. as_input el = Some i \<and> \<not> truthy (placeholder i) \<and> is_button_input i
               \<and> truthy (input_value i) \<longrightarrow> getName el = input_value i)
      \<and> (\<forall>i. as_input el = Some i \<and> \<not> truthy (placeholder i) \<and> is_button_input i
               \<and> \<not> truthy (input_value i) \<longrightarrow> getName el = text_slice el 100)
      \<and> (as_input el = None
           \<or> (\<exists>i. as_input el = Some i \<and> \<not> truthy (placeholder i) \<and> \<not> is_button_input i)
          \<longrightarrow> getName el = (if text_slice el 200 = [] then ''(unnamed)'' else text_slice el 200)))"
  by (auto simp add: getName_def text_or_unnamed_def truthy_def Let_def)

theorem name_precedence_witness:
  "getName titled_input = ''Your name''
   \<and> getName (bare_submit\<lparr>as_input := None\<rparr>) = ''(unnamed)''"
proof -
  have a: "if_truthy (getAttribute titled_input ''aria-label'') = None" by code_simp
  have t: "if_truthy (getAttribute titled_input ''title'') = Some '' Your name ''" by code_simp
  have tr: "trim '' Your name '' = ''Your name''" by code_simp
  have a': "if_truthy (getAttribute (bare_submit\<lparr>as_input := None\<rparr>) ''aria-label'') = None"
    by code_simp
  have t': "if_truthy (getAttribute (bare_submit\<lparr>as_input := None\<rparr>) ''title'') = None"
    by code_simp
  have i': "as_input (bare_submit\<lparr>as_input := None\<rparr>) = None" by simp
  have x': "text_slice (bare_submit\<lparr>as_input := None\<rparr>) 200 = []" by code_simp
  from name_precedence[of titled_input] a t have 1: "getName titled_input = trim '' Your name ''"
    by blast
  from name_precedence[of "bare_submit\<lparr>as_input := None\<rparr>"] a' t' i'
  have "getName (bare_submit\<lparr>as_input := None\<rparr>)
          = (if text_slice (bare_submit\<lparr>as_input := None\<rparr>) 200 = [] then ''(unnamed)''
             else text_slice (bare_submit\<lparr>as_input := None\<rparr>) 200)"
    by blast
  with 1 tr x' show ?thesis by simp
qed

text \<open>
  Claim C5 as stated fails at a submit input with an empty value and no text: no name
  is derivable for it, and it reports the empty string, not \<open>(unnamed)\<close>.
\<close>

theorem bare_submit_has_empty_name:
  "getAttribute bare_submit ''aria-label'' = None \<and> getAttribute bare_submit ''title'' = None
   \<and> getName bare_submit = [] \<and> getName bare_submit \<noteq> ''(unnamed)''"
  by code_simp

section \<open>Entries the collectors build\<close>

lemma update_set:
  "(k', v') \<in> set (AList.update k v al) \<Longrightarrow> (k' = k \<and> v' = v) \<or> (k', v') \<in> set al"
  by (induction al) (auto split: if_splits)

lemma assign_refs_entries:
  "(r, e) \<in> set (fst (assign_refs p i ns acc)) \<Longrightarrow>
     (r, e) \<in> set (fst acc) \<or> (\<exists>n\<in>set ns. e = locator_entry n)"
proof (induction ns arbitrary: i acc)
  case Nil
  then show ?case by simp
next
  case (Cons node rest)
  obtain es ls where acc: "acc = (es, ls)" by (cases acc)
  from Cons.prems have
    "(r, e) \<in> set (fst (assign_refs p (Suc i) rest
        (AList.update (p @ string_of_nat (i + 1)) (locator_entry node) es,
         ls @ [node_line (raw_role node) (raw_name node) (p @ string_of_nat (i + 1))])))"
    by (simp add: acc Let_def)
  from Cons.IH[OF this] show ?case
    by (auto simp add: acc dest: update_set)
qed

lemma ax_refs_entries:
  "(r, e) \<in> set (fst (ax_refs p fid i ns acc)) \<Longrightarrow>
     (r, e) \<in> set (fst acc)
     \<or> (\<exists>n\<in>set ns. \<exists>b. ax_backendDOMNodeId n = Some b
            \<and> e = \<lparr>cdp_role = axRole n, cdp_name = axName n, cdp_frameId = fid,
                    cdp_backendDOMNodeId = Some b, cdp_viewportClickPoint = None\<rparr>)"
proof (induction ns arbitrary: i acc)
  case Nil
  then show ?case by simp
next
  case (Cons node rest)
  obtain es ls where acc: "acc = (es, ls)" by (cases acc)
  show ?case
  proof (cases "ax_backendDOMNodeId node")
    case None
    with Cons.prems have
      "(r, e) \<in> set (fst (ax_refs p fid (Suc i) rest
          (es, ls @ [node_line (axRole node) (axName node) (p @ string_of_nat (i + 1))])))"
      by (simp add: acc Let_def)
    from Cons.IH[OF this] show ?thesis by (auto simp add: acc)
  next
    case (Some b)
    with Cons.prems have
      "(r, e) \<in> set (fst (ax_refs p fid (Suc i) rest
          (AList.update (p @ string_of_nat (i + 1))
             \<lparr>cdp_role = axRole node, cdp_name = axName node, cdp_frameId = fid,
              cdp_backendDOMNodeId = Some b, cdp_viewportClickPoint = None\<rparr> es,
           ls @ [node_line (axRole node) (axName node) (p @ string_of_nat (i + 1))])))"
      by (simp add: acc Let_def)
    from Cons.IH[OF this] Some show ?thesis
      by (auto simp add: acc dest: update_set)
  qed
qed


lemma dom_label_length: "length (dom_label nodes strTable domIdx tag) \<le> 200"
  by (simp add: dom_label_def Let_def)

text \<open>What a row of the layout table must be for the loop to give it an entry, and the entry.\<close>

lemma dom_step_entries:
  assumes "(r, e) \<in> set (st_entries (dom_step fid p strTable nodes nodeIndex bounds R sx sy i st))"
  shows "(r, e) \<in> set (st_entries st)
     \<or> (\<exists>b. nth_opt bounds (int i) = Some b \<and> 4 \<le> length b \<and> 0 < b ! 2 \<and> 0 < b ! 3
            \<and> cdp_backendDOMNodeId e = None
            \<and> cdp_viewportClickPoint e
                 = Some (rect_x R + (b ! 0 + b ! 2 / 2 - sx), rect_y R + (b ! 1 + b ! 3 / 2 - sy))
            \<and> length (cdp_name e) \<le> 200 \<and> cdp_frameId e = fid)"
proof (cases "nth_opt bounds (int i)")
  case None
  with assms show ?thesis by (simp add: dom_step_def Let_def)
next
  case (Some b)
  show ?thesis
  proof (cases "length b < 4 \<or> b ! 2 \<le> 0 \<or> b ! 3 \<le> 0")
    case True
    with assms Some show ?thesis by (simp add: dom_step_def Let_def)
  next
    case False
    then have box: "4 \<le> length b \<and> 0 < b ! 2 \<and> 0 < b ! 3" by auto
    from assms Some False show ?thesis
      using box dom_label_length
      by (auto simp add: dom_step_def Let_def split: if_splits dest!: update_set)
  qed
qed

lemma dom_fold_entries:
  assumes "(r, e) \<in> set (st_entries (fold (dom_step fid p strTable nodes nodeIndex bounds R sx sy) rows st))"
  shows "(r, e) \<in> set (st_entries st)
     \<or> (\<exists>i\<in>set rows. \<exists>b. nth_opt bounds (int i) = Some b \<and> 4 \<le> length b \<and> 0 < b ! 2 \<and> 0 < b ! 3
            \<and> cdp_backendDOMNodeId e = None
            \<and> cdp_viewportClickPoint e
                 = Some (rect_x R + (b ! 0 + b ! 2 / 2 - sx), rect_y R + (b ! 1 + b ! 3 / 2 - sy))
            \<and> length (cdp_name e) \<le> 200 \<and> cdp_frameId e = fid)"
  using assms
proof (induction rows arbitrary: st)
  case Nil
  then show ?case by simp
next
  case (Cons i rows)
  from Cons.prems have
    "(r, e) \<in> set (st_entries (fold (dom_step fid p strTable nodes nodeIndex bounds R sx sy) rows
                       (dom_step fid p strTable nodes nodeIndex bounds R sx sy i st)))"
    by simp
  from Cons.IH[OF this] show ?case
  proof
    assume "(r, e) \<in> set (st_entries (dom_step fid p strTable nodes nodeIndex bounds R sx sy i st))"
    from dom_step_entries[OF this] show ?thesis by auto
  next
    assume "\<exists>i\<in>set rows. \<exists>b. nth_opt bounds (int i) = Some b \<and> 4 \<le> length b \<and> 0 < b ! 2 \<and> 0 < b ! 3
            \<and> cdp_backendDOMNodeId e = None
            \<and> cdp_viewportClickPoint e
                 = Some (rect_x R + (b ! 0 + b ! 2 / 2 - sx), rect_y R + (b ! 1 + b ! 3 / 2 - sy))
            \<and> length (cdp_name e) \<le> 200 \<and> cdp_frameId e = fid"
    then show ?thesis by auto
  qed
qed

lemma copy_entries_fold:
  "(r, e) \<in> set (fold (\<lambda>(ref, c) acc. AList.update ref (to_RefEntry c) acc) es acc0) \<Longrightarrow>
     (r, e) \<in> set acc0 \<or> (\<exists>c. (r, c) \<in> set es \<and> e = to_RefEntry c)"
proof (induction es arbitrary: acc0)
  case Nil
  then show ?case by simp
next
  case (Cons x es)
  obtain k c where x: "x = (k, c)" by (cases x)
  from Cons.prems have
    "(r, e) \<in> set (fold (\<lambda>(ref, c) acc. AList.update ref (to_RefEntry c) acc) es
                      (AList.update k (to_RefEntry c) acc0))"
    by (simp add: x)
  from Cons.IH[OF this] show ?case
    by (auto simp add: x dest: update_set)
qed

lemma copy_entries_set:
  "(r, e) \<in> set (copy_entries es) \<Longrightarrow> \<exists>c. (r, c) \<in> set es \<and> e = to_RefEntry c"
  unfolding copy_entries_def by (drule copy_entries_fold) simp

section \<open>The viewport point of a layout-snapshot entry\<close>


lemma tier_b_entries:
  assumes "snapshotFrameViaDOMSnapshot cdp fid frameKey refPrefix strs = Some res"
  shows "\<exists>snap doc nodeIndex bounds R.
           captureSnapshot cdp = Reply snap
         \<and> find_document (case documents snap of Some ds \<Rightarrow> ds | None \<Rightarrow> [])
              (case strings snap of Some t \<Rightarrow> t | None \<Rightarrow> strs) fid = Some doc
         \<and> layout_nodeIndex doc = Some nodeIndex \<and> layout_bounds doc = Some bounds
         \<and> getIframeViewportRect cdp fid = Some R
         \<and> cdp_entries res \<noteq> []
         \<and> (\<forall>(r, e) \<in> set (cdp_entries res).
              \<exists>i<length nodeIndex. \<exists>b.
                nth_opt bounds (int i) = Some b \<and> 4 \<le> length b \<and> 0 < b ! 2 \<and> 0 < b ! 3
                \<and> cdp_backendDOMNodeId e = None
                \<and> cdp_viewportClickPoint e
                    = Some (rect_x R + (b ! 0 + b ! 2 / 2
                                          - (case scrollOffsetX doc of Some v \<Rightarrow> v | None \<Rightarrow> 0)),
                            rect_y R + (b ! 1 + b ! 3 / 2
                                          - (case scrollOffsetY doc of Some v \<Rightarrow> v | None \<Rightarrow> 0)))
                \<and> length (cdp_name e) \<le> 200 \<and> cdp_frameId e = fid)"
proof -
  from assms obtain snap where snap: "captureSnapshot cdp = Reply snap"
    by (auto simp add: snapshotFrameViaDOMSnapshot_def split: if_splits reply.splits)
  define docs where "docs = (case documents snap of Some ds \<Rightarrow> ds | None \<Rightarrow> [])"
  define strTable where "strTable = (case strings snap of Some t \<Rightarrow> t | None \<Rightarrow> strs)"
  from assms snap obtain doc where doc: "find_document docs strTable fid = Some doc"
    by (auto simp add: snapshotFrameViaDOMSnapshot_def docs_def strTable_def Let_def
             split: if_splits option.splits)
  from assms snap doc obtain nodeIndex bounds nodes where
    lay: "layout_nodeIndex doc = Some nodeIndex" "layout_bounds doc = Some bounds"
         "doc_nodes doc = Some nodes"
    by (auto simp add: snapshotFrameViaDOMSnapshot_def docs_def strTable_def Let_def
             split: if_splits option.splits)
  from assms snap doc lay obtain R where R: "getIframeViewportRect cdp fid = Some R"
    by (auto simp add: snapshotFrameViaDOMSnapshot_def docs_def strTable_def Let_def
             split: if_splits option.splits)
  define sx where "sx = (case scrollOffsetX doc of Some v \<Rightarrow> v | None \<Rightarrow> 0)"
  define sy where "sy = (case scrollOffsetY doc of Some v \<Rightarrow> v | None \<Rightarrow> 0)"
  define st where "st = fold (dom_step fid refPrefix strTable nodes nodeIndex bounds R sx sy)
                          [0..<length nodeIndex]
                          \<lparr>st_entries = [],
                           st_lines = [''- frame '' @ frameKey @ '' [ref='' @ refPrefix
                                       @ ''0] (DOMSnapshot):''],
                           st_refIdx = 0\<rparr>"
  from assms snap doc lay R have res: "st_entries st \<noteq> [] \<and> cdp_entries res = st_entries st"
    by (auto simp add: snapshotFrameViaDOMSnapshot_def docs_def strTable_def Let_def
               sx_def sy_def st_def split: if_splits)
  have "\<forall>(r, e) \<in> set (st_entries st).
              \<exists>i<length nodeIndex. \<exists>b.
                nth_opt bounds (int i) = Some b \<and> 4 \<le> length b \<and> 0 < b ! 2 \<and> 0 < b ! 3
                \<and> cdp_backendDOMNodeId e = None
                \<and> cdp_viewportClickPoint e
                    = Some (rect_x R + (b ! 0 + b ! 2 / 2 - sx), rect_y R + (b ! 1 + b ! 3 / 2 - sy))
                \<and> length (cdp_name e) \<le> 200 \<and> cdp_frameId e = fid"
  proof (clarify)
    fix r e assume "(r, e) \<in> set (st_entries st)"
    from dom_fold_entries[OF this[unfolded st_def]]
    show "\<exists>i<length nodeIndex. \<exists>b.
                nth_opt bounds (int i) = Some b \<and> 4 \<le> length b \<and> 0 < b ! 2 \<and> 0 < b ! 3
                \<and> cdp_backendDOMNodeId e = None
                \<and> cdp_viewportClickPoint e
                    = Some (rect_x R + (b ! 0 + b ! 2 / 2 - sx), rect_y R + (b ! 1 + b ! 3 / 2 - sy))
                \<and> length (cdp_name e) \<le> 200 \<and> cdp_frameId e = fid"
      by auto
  qed
  with snap doc lay R res show ?thesis
    unfolding docs_def strTable_def sx_def sy_def by auto
qed




section \<open>Lengths of the stored names\<close>


lemma tier_a_entries:
  assumes "snapshotFrameViaCDP depth cdp fid key p = Some res"
    and "(r, e) \<in> set (cdp_entries res)"
  shows "\<exists>n b. ax_backendDOMNodeId n = Some b
           \<and> e = \<lparr>cdp_role = axRole n, cdp_name = axName n, cdp_frameId = fid,
                   cdp_backendDOMNodeId = Some b, cdp_viewportClickPoint = None\<rparr>"
proof -
  from assms(1) obtain tx es where
    b: "buildSnapshotFromAXNodes depth (getAXTreeForFrame cdp fid) key p fid key = Some (tx, es)"
    and res: "cdp_entries res = es"
    by (auto simp add: snapshotFrameViaCDP_def split: option.splits)
  from b obtain interactive l0 where
    "es = fst (ax_refs p fid 0 interactive ([], l0))"
    by (auto simp add: buildSnapshotFromAXNodes_def Let_def split: option.splits prod.splits)
       (metis fst_conv)
  with assms(2) res have
    "(r, e) \<in> set (fst (ax_refs p fid 0 interactive ([], l0)))"
    by simp
  from ax_refs_entries[OF this] show ?thesis by auto
qed





section \<open>The nodes Tier A collects\<close>

lemma those_map_Some:
  "those (map f xs) = Some ys \<Longrightarrow> list_all2 (\<lambda>x y. f x = Some y) xs ys"
proof (induction xs arbitrary: ys)
  case Nil
  then show ?case by simp
next
  case (Cons x xs)
  then show ?case by (auto split: option.splits)
qed

lemma concat_sets:
  assumes "list_all2 (\<lambda>x y. f x = Some y) xs ys"
    and "\<And>x y. x \<in> set xs \<Longrightarrow> f x = Some y \<Longrightarrow> set y = S x"
  shows "set (concat ys) = (\<Union>x\<in>set xs. S x)"
  using assms
proof (induction xs ys rule: list_all2_induct)
  case Nil
  then show ?case by simp
next
  case (Cons x xs y ys)
  have "set y = S x" using Cons.hyps(1) Cons.prems by simp
  moreover have "set (concat ys) = (\<Union>x\<in>set xs. S x)"
    using Cons.IH Cons.prems by simp
  ultimately show ?case by simp
qed

lemma reaches_unmapped: "map_of byId i = None \<Longrightarrow> \<not> reaches byId i n"
  by (auto elim: reaches.cases)

lemma reaches_step:
  assumes "map_of byId i = Some node"
  shows "reaches byId i n \<longleftrightarrow>
           n = node \<or> (\<exists>c\<in>set (case ax_childIds node of None \<Rightarrow> [] | Some cs \<Rightarrow> cs). reaches byId c n)"
proof
  assume "reaches byId i n"
  then show "n = node \<or> (\<exists>c\<in>set (case ax_childIds node of None \<Rightarrow> [] | Some cs \<Rightarrow> cs). reaches byId c n)"
    using assms by (cases rule: reaches.cases) auto
next
  assume "n = node \<or> (\<exists>c\<in>set (case ax_childIds node of None \<Rightarrow> [] | Some cs \<Rightarrow> cs). reaches byId c n)"
  then show "reaches byId i n"
  proof
    assume "n = node"
    with assms show ?thesis by (simp add: reaches.here)
  next
    assume "\<exists>c\<in>set (case ax_childIds node of None \<Rightarrow> [] | Some cs \<Rightarrow> cs). reaches byId c n"
    then obtain c cs where "ax_childIds node = Some cs" "c \<in> set cs" "reaches byId c n"
      by (cases "ax_childIds node") auto
    with assms show ?thesis by (blast intro: reaches.below)
  qed
qed

lemma walk_set:
  "walk d byId i = Some out \<Longrightarrow> set out = {n. reaches byId i n \<and> walk_accepts n}"
proof (induction d arbitrary: i out)
  case 0
  then show ?case by simp
next
  case (Suc d)
  show ?case
  proof (cases "map_of byId i")
    case None
    with Suc.prems have "out = []" by simp
    with None show ?thesis using reaches_unmapped by fastforce
  next
    case (Some node)
    define cs where "cs = (case ax_childIds node of None \<Rightarrow> [] | Some cs \<Rightarrow> cs)"
    from Suc.prems Some obtain outs where
      outs: "those (map (walk d byId) cs) = Some outs"
      and out: "out = (if walk_accepts node then [node] else []) @ concat outs"
      by (auto simp add: cs_def split: option.splits)
    have "set (concat outs) = (\<Union>c\<in>set cs. {n. reaches byId c n \<and> walk_accepts n})"
      by (rule concat_sets[OF those_map_Some[OF outs]]) (rule Suc.IH)
    with out reaches_step[OF Some] show ?thesis
      by (auto simp add: cs_def)
  qed
qed

lemma walk_mono: "walk d byId i = Some out \<Longrightarrow> walk (Suc d) byId i = Some out"
proof (induction d arbitrary: i out)
  case 0
  then show ?case by simp
next
  case (Suc d)
  show ?case
  proof (cases "map_of byId i")
    case None
    with Suc.prems show ?thesis by simp
  next
    case (Some node)
    define cs where "cs = (case ax_childIds node of None \<Rightarrow> [] | Some cs \<Rightarrow> cs)"
    from Suc.prems Some obtain outs where
      outs: "those (map (walk d byId) cs) = Some outs"
      and out: "out = (if walk_accepts node then [node] else []) @ concat outs"
      by (auto simp add: cs_def split: option.splits)
    have eq: "map (walk (Suc d) byId) cs = map (walk d byId) cs"
    proof (rule map_cong[OF refl])
      fix c assume "c \<in> set cs"
      then obtain k where k: "k < length cs" "cs ! k = c" by (auto simp add: in_set_conv_nth)
      from those_map_Some[OF outs] k have "walk d byId c = Some (outs ! k)"
        by (auto simp add: list_all2_conv_all_nth)
      with Suc.IH show "walk (Suc d) byId c = walk d byId c" by simp
    qed
    have "walk (Suc (Suc d)) byId i =
            (case those (map (walk (Suc d) byId) cs) of
               None \<Rightarrow> None
             | Some outs \<Rightarrow> Some ((if walk_accepts node then [node] else []) @ concat outs))"
      by (simp add: Some cs_def)
    also have "\<dots> = Some out" by (simp only: eq outs out option.case)
    finally show ?thesis .
  qed
qed

lemma collect_strict_set:
  assumes "those (map (\<lambda>n. case if_truthy (ax_nodeId n) of
                               Some i \<Rightarrow> walk depth byId i | None \<Rightarrow> Some []) roots) = Some outs"
  shows "set (concat outs) =
           (\<Union>rt\<in>set roots. {n. (\<exists>i. if_truthy (ax_nodeId rt) = Some i \<and> reaches byId i n)
                                   \<and> walk_accepts n})"
proof (rule concat_sets[OF those_map_Some[OF assms]])
  fix rt y
  assume "(case if_truthy (ax_nodeId rt) of Some i \<Rightarrow> walk depth byId i | None \<Rightarrow> Some []) = Some y"
  then show "set y = {n. (\<exists>i. if_truthy (ax_nodeId rt) = Some i \<and> reaches byId i n) \<and> walk_accepts n}"
    by (cases "if_truthy (ax_nodeId rt)") (auto dest: walk_set)
qed

text \<open>
  Claim C7, as amended. When the collection completes, a node the walk visits from a
  root (a node without a parent id) is collected iff it is not marked ignored, has a
  native node handle, and its role is one of the seventeen interactive roles or is
  \<open>generic\<close> (the role of a node that reports none): \<open>generic\<close> nodes are taken
  during the walk itself, named or not. Only when no visited node passes this test
  the second pass runs, over all nodes in their order, and takes every node that is not
  ignored, has a handle, and has a non-empty role or a non-empty name, whatever the
  role is.
\<close>

theorem tier_a_inclusion:
  assumes "collectInteractiveNodes depth nodes = Some out"
  shows "let visited = (\<lambda>n. \<exists>rt\<in>set nodes. if_truthy (ax_parentId rt) = None
                              \<and> (\<exists>i. if_truthy (ax_nodeId rt) = Some i
                                      \<and> reaches (byId_of nodes) i n));
             strict = (\<lambda>n. visited n \<and> ax_ignored n \<noteq> Some True \<and> ax_backendDOMNodeId n \<noteq> None
                             \<and> (axRole n \<in> set INTERACTIVE_ROLES \<or> axRole n = ''generic''))
         in ((\<exists>n. strict n) \<longrightarrow> (\<forall>n. n \<in> set out \<longleftrightarrow> strict n))
          \<and> (\<not> (\<exists>n. strict n) \<longrightarrow>
               out = filter (\<lambda>n. ax_ignored n \<noteq> Some True \<and> ax_backendDOMNodeId n \<noteq> None
                               \<and> (if_truthy (ax_role_value n) \<noteq> None
                                   \<or> if_truthy (ax_name_value n) \<noteq> None)) nodes)"
proof -
  define roots where "roots = filter (\<lambda>n. if_truthy (ax_parentId n) = None) nodes"
  from assms obtain outs where
    outs: "those (map (\<lambda>n. case if_truthy (ax_nodeId n) of
                               Some i \<Rightarrow> walk depth (byId_of nodes) i | None \<Rightarrow> Some []) roots) = Some outs"
    and out: "out = (if length (concat outs) = 0 \<and> length nodes > 0
                     then filter second_pass_accepts nodes else concat outs)"
    by (auto simp add: collectInteractiveNodes_def Let_def roots_def split: option.splits)
  define strict where
    "strict = (\<lambda>n. (\<exists>rt\<in>set nodes. if_truthy (ax_parentId rt) = None
                              \<and> (\<exists>i. if_truthy (ax_nodeId rt) = Some i
                                      \<and> reaches (byId_of nodes) i n))
                  \<and> ax_ignored n \<noteq> Some True \<and> ax_backendDOMNodeId n \<noteq> None
                  \<and> (axRole n \<in> set INTERACTIVE_ROLES \<or> axRole n = ''generic''))"
  define co where "co = concat outs"
  have s: "set co = {n. strict n}"
    unfolding co_def collect_strict_set[OF outs] strict_def roots_def walk_accepts_def
      isInteractive_def
    by auto
  from out have out': "out = (if co = [] \<and> nodes \<noteq> []
                              then filter second_pass_accepts nodes else co)"
    by (simp add: co_def)
  have sp: "filter second_pass_accepts nodes
              = filter (\<lambda>n. ax_ignored n \<noteq> Some True \<and> ax_backendDOMNodeId n \<noteq> None
                               \<and> (if_truthy (ax_role_value n) \<noteq> None
                                   \<or> if_truthy (ax_name_value n) \<noteq> None)) nodes"
    by (rule filter_cong[OF refl]) (simp add: second_pass_accepts_def)
  have a: "(\<exists>n. strict n) \<longrightarrow> (\<forall>n. n \<in> set out \<longleftrightarrow> strict n)"
  proof
    assume "\<exists>n. strict n"
    with s have "set co \<noteq> {}" by auto
    then have "co \<noteq> []" by auto
    with out' have "out = co" by simp
    with s show "\<forall>n. n \<in> set out \<longleftrightarrow> strict n" by simp
  qed
  have b: "\<not> (\<exists>n. strict n) \<longrightarrow> out = filter second_pass_accepts nodes"
  proof
    assume "\<not> (\<exists>n. strict n)"
    with s have "set co = {}" by auto
    then have e: "co = []" by simp
    show "out = filter second_pass_accepts nodes"
    proof (cases "nodes = []")
      case True
      with out' e show ?thesis by simp
    next
      case False
      with out' e show ?thesis by simp
    qed
  qed
  from a b show ?thesis
    unfolding Let_def sp[symmetric] strict_def by blast
qed

lemma ax_nodes_run: "collectInteractiveNodes 3 ax_nodes = Some [ax_button, ax_generic]"
  by code_simp

theorem tier_a_inclusion_witness:
  "collectInteractiveNodes 3 ax_nodes = Some [ax_button, ax_generic]
   \<and> (\<forall>n. n \<in> set [ax_button, ax_generic] \<longleftrightarrow>
        (\<exists>rt\<in>set ax_nodes. if_truthy (ax_parentId rt) = None
             \<and> (\<exists>i. if_truthy (ax_nodeId rt) = Some i \<and> reaches (byId_of ax_nodes) i n))
        \<and> ax_ignored n \<noteq> Some True \<and> ax_backendDOMNodeId n \<noteq> None
        \<and> (axRole n \<in> set INTERACTIVE_ROLES \<or> axRole n = ''generic''))"
proof -
  have m1: "map_of (byId_of ax_nodes) ''1'' = Some ax_root" by code_simp
  have m2: "map_of (byId_of ax_nodes) ''2'' = Some ax_button" by code_simp
  have c: "ax_childIds ax_root = Some [''2'', ''3'']" by (simp add: ax_root_def)
  have "reaches (byId_of ax_nodes) ''2'' ax_button" using m2 by (rule reaches.here)
  with m1 c have r: "reaches (byId_of ax_nodes) ''1'' ax_button"
    by (auto intro: reaches.below)
  have rt: "ax_root \<in> set ax_nodes \<and> if_truthy (ax_parentId ax_root) = None
            \<and> if_truthy (ax_nodeId ax_root) = Some ''1''"
    by (simp add: ax_nodes_def ax_root_def if_truthy_def truthy_def)
  have ok: "ax_ignored ax_button \<noteq> Some True \<and> ax_backendDOMNodeId ax_button \<noteq> None
            \<and> axRole ax_button \<in> set INTERACTIVE_ROLES"
    by (simp add: ax_button_def axRole_def INTERACTIVE_ROLES_def)
  from r rt ok have ex:
    "\<exists>n. (\<exists>rt\<in>set ax_nodes. if_truthy (ax_parentId rt) = None
             \<and> (\<exists>i. if_truthy (ax_nodeId rt) = Some i \<and> reaches (byId_of ax_nodes) i n))
        \<and> ax_ignored n \<noteq> Some True \<and> ax_backendDOMNodeId n \<noteq> None
        \<and> (axRole n \<in> set INTERACTIVE_ROLES \<or> axRole n = ''generic'')"
    by blast
  from tier_a_inclusion[OF ax_nodes_run] ex
  have "\<forall>n. n \<in> set [ax_button, ax_generic] \<longleftrightarrow>
        (\<exists>rt\<in>set ax_nodes. if_truthy (ax_parentId rt) = None
             \<and> (\<exists>i. if_truthy (ax_nodeId rt) = Some i \<and> reaches (byId_of ax_nodes) i n))
        \<and> ax_ignored n \<noteq> Some True \<and> ax_backendDOMNodeId n \<noteq> None
        \<and> (axRole n \<in> set INTERACTIVE_ROLES \<or> axRole n = ''generic'')"
    unfolding Let_def by blast
  with ax_nodes_run show ?thesis by blast
qed

text \<open>
  Claim C7 as stated fails: the walk over the tree of the example collects the node
  of role \<open>generic\<close>, which has no name and whose role is not in the set of interactive
  roles, next to the button; the second pass does not run.
\<close>

theorem generic_node_in_strict_walk:
  "walk 3 (byId_of ax_nodes) ''1'' = Some [ax_button, ax_generic]
   \<and> collectInteractiveNodes 3 ax_nodes = Some [ax_button, ax_generic]
   \<and> axRole ax_generic = ''generic'' \<and> axRole ax_generic \<notin> set INTERACTIVE_ROLES
   \<and> ax_name_value ax_generic = None"
  by code_simp

section \<open>The order of the tiers in one call of the tool\<close>

lemma collected_have_handle:
  assumes "collectInteractiveNodes depth nodes = Some out" and "n \<in> set out"
  shows "ax_backendDOMNodeId n \<noteq> None"
proof -
  define roots where "roots = filter (\<lambda>n. if_truthy (ax_parentId n) = None) nodes"
  from assms(1) obtain outs where
    outs: "those (map (\<lambda>n. case if_truthy (ax_nodeId n) of
                               Some i \<Rightarrow> walk depth (byId_of nodes) i | None \<Rightarrow> Some []) roots) = Some outs"
    and out: "out = (if length (concat outs) = 0 \<and> length nodes > 0
                     then filter second_pass_accepts nodes else concat outs)"
    by (auto simp add: collectInteractiveNodes_def Let_def roots_def split: option.splits)
  define co where "co = concat outs"
  have s: "\<forall>n\<in>set co. walk_accepts n"
    unfolding co_def collect_strict_set[OF outs] by auto
  from out have "out = (if co = [] \<and> nodes \<noteq> [] then filter second_pass_accepts nodes else co)"
    by (simp add: co_def)
  with assms(2) s show ?thesis
    by (auto simp add: walk_accepts_def second_pass_accepts_def split: if_splits)
qed

lemma ax_refs_keeps_nonempty:
  "fst acc \<noteq> [] \<Longrightarrow> fst (ax_refs p fid i ns acc) \<noteq> []"
proof (induction ns arbitrary: i acc)
  case Nil
  then show ?case by simp
next
  case (Cons node rest)
  obtain es ls where acc: "acc = (es, ls)" by (cases acc)
  with Cons.prems have es: "es \<noteq> []" by simp
  show ?case
    by (cases "ax_backendDOMNodeId node") (simp_all add: acc Let_def Cons.IH es)
qed

lemma ax_refs_nonempty:
  assumes "ns \<noteq> []" and "\<forall>n\<in>set ns. ax_backendDOMNodeId n \<noteq> None"
  shows "fst (ax_refs p fid i ns acc) \<noteq> []"
proof -
  from assms(1) obtain node rest where ns: "ns = node # rest" by (cases ns) auto
  with assms(2) obtain b where b: "ax_backendDOMNodeId node = Some b" by auto
  obtain es ls where acc: "acc = (es, ls)" by (cases acc)
  show ?thesis
    by (simp add: ns acc b Let_def ax_refs_keeps_nonempty)
qed

lemma tier_a_empty_text:
  assumes "snapshotFrameViaCDP depth cdp fid key p = Some a" and "cdp_entries a = []"
  shows "cdp_text a = join_lines [''- frame '' @ key @ '' [ref='' @ p @ ''0]:'',
                                  ''  - (CDP: '' @ string_of_nat (length (getAXTreeForFrame cdp fid))
                                    @ '' AX nodes, none matched)'']"
proof -
  define nodes where "nodes = getAXTreeForFrame cdp fid"
  define hdr where "hdr = ''- frame '' @ key @ '' [ref='' @ p @ ''0]:''"
  from assms obtain interactive where
    c: "collectInteractiveNodes depth nodes = Some interactive"
    by (auto simp add: snapshotFrameViaCDP_def buildSnapshotFromAXNodes_def nodes_def
             split: option.splits)
  from assms c have e: "fst (ax_refs p fid 0 interactive ([], [hdr])) = []"
    by (auto simp add: snapshotFrameViaCDP_def buildSnapshotFromAXNodes_def nodes_def hdr_def
               Let_def split: option.splits prod.splits)
  have "interactive = []"
  proof (rule ccontr)
    assume "interactive \<noteq> []"
    moreover have "\<forall>n\<in>set interactive. ax_backendDOMNodeId n \<noteq> None"
      using collected_have_handle[OF c] by blast
    ultimately have "fst (ax_refs p fid 0 interactive ([], [hdr])) \<noteq> []"
      by (rule ax_refs_nonempty)
    with e show False by simp
  qed
  with assms(1) c show ?thesis
    by (simp add: snapshotFrameViaCDP_def buildSnapshotFromAXNodes_def nodes_def[symmetric] Let_def)
       (auto simp add: nodes_def)
qed

lemma cdp_snapshot_cases:
  assumes "cdp_snapshot depth context rm sel = (t, rm', tiers)"
  shows "(tiers = [] \<and> t = None \<and> rm' = rm)
       \<or> (\<exists>ctx cdp tr fid. context = Some ctx \<and> newCDPSession ctx = Some cdp
             \<and> getFrameTree cdp = Reply tr \<and> find_frame_id cdp tr sel = Reply (Some fid)
             \<and> ((tiers = [TierA] \<and> snapshotFrameViaCDP depth cdp fid sel ''f1e'' = None
                   \<and> t = None \<and> rm' = rm)
                \<or> (\<exists>a. snapshotFrameViaCDP depth cdp fid sel ''f1e'' = Some a
                       \<and> cdp_entries a \<noteq> [] \<and> tiers = [TierA] \<and> t = Some (cdp_text a)
                       \<and> rm' = setRefMap rm sel (copy_entries (cdp_entries a)))
                \<or> (\<exists>a. snapshotFrameViaCDP depth cdp fid sel ''f1e'' = Some a
                       \<and> cdp_entries a = [] \<and> tiers = [TierA, TierB]
                       \<and> (case snapshotFrameViaDOMSnapshot cdp fid sel ''f1e'' [] of
                             Some d \<Rightarrow> t = Some (cdp_text d)
                                        \<and> rm' = setRefMap rm sel (copy_entries (cdp_entries d))
                           | None \<Rightarrow> t = Some (cdp_text a)
                                     \<and> rm' = setRefMap rm sel (copy_entries [])))))"
  using assms
  by (auto simp add: cdp_snapshot_def Let_def if_truthy_def
           split: option.splits reply.splits if_splits)

lemma bare_run:
  "snapshot_frame_tool 3 cross_page (Some bare_context) [] ''iframe#player''
     = (none_matched, [(''iframe#player'', [])], [InPage, TierA, TierB])"
  by code_simp

text \<open>
  Claim C2, as amended. One call of the tool attempts the collectors in the order
  in-page, Tier A, Tier B, skipping some: the in-page collector is attempted exactly
  for a non-empty selector that contains no \<open>>>\<close>, and then first; for a chained
  selector it is skipped and the call starts at Tier A. Tier A is attempted after the
  in-page collector only when that one failed. Tier B is attempted exactly when
  Tier A was attempted, completed and produced no entry. When Tier B produces nothing
  either, the call returns a result that is not an error, whose text is the frame
  line followed by the line \<open>(CDP: n AX nodes, none matched)\<close>, and the entry set
  stored for the selector is empty.
\<close>

theorem tier_escalation_order:
  assumes "snapshot_frame_tool depth pg context rm sel = (res, rm', tiers)"
  shows "tiers \<in> set [[], [InPage], [InPage, TierA], [InPage, TierA, TierB], [TierA], [TierA, TierB]]
       \<and> (InPage \<in> set tiers \<longleftrightarrow> truthy sel \<and> \<not> includes_chain sel)
       \<and> (InPage \<in> set tiers \<and> TierA \<in> set tiers \<longrightarrow> (\<exists>e. fst (snapshotFrame pg rm sel) = Inl e))
       \<and> (TierA \<in> set tiers \<longrightarrow>
            (\<exists>ctx cdp tr fid. context = Some ctx \<and> newCDPSession ctx = Some cdp
               \<and> getFrameTree cdp = Reply tr \<and> find_frame_id cdp tr sel = Reply (Some fid)
               \<and> (TierB \<in> set tiers \<longleftrightarrow>
                    (\<exists>a. snapshotFrameViaCDP depth cdp fid sel ''f1e'' = Some a \<and> cdp_entries a = []))
               \<and> (TierB \<in> set tiers \<and> snapshotFrameViaDOMSnapshot cdp fid sel ''f1e'' [] = None
                    \<longrightarrow> \<not> isError res
                       \<and> tool_text res
                           = join_lines [''- frame '' @ sel @ '' [ref=f1e0]:'',
                               ''  - (CDP: '' @ string_of_nat (length (getAXTreeForFrame cdp fid))
                                 @ '' AX nodes, none matched)'']
                       \<and> (\<forall>r. getRefEntry rm' sel r = None))))"
proof (cases "truthy sel")
  case False
  with assms show ?thesis by (auto simp add: snapshot_frame_tool_def)
next
  case True
  have part: "\<And>rm0 t rm1 ts. cdp_snapshot depth context rm0 sel = (t, rm1, ts) \<Longrightarrow>
      ts \<in> set [[], [TierA], [TierA, TierB]]
      \<and> (TierA \<in> set ts \<longrightarrow>
            (\<exists>ctx cdp tr fid. context = Some ctx \<and> newCDPSession ctx = Some cdp
               \<and> getFrameTree cdp = Reply tr \<and> find_frame_id cdp tr sel = Reply (Some fid)
               \<and> (TierB \<in> set ts \<longleftrightarrow>
                    (\<exists>a. snapshotFrameViaCDP depth cdp fid sel ''f1e'' = Some a \<and> cdp_entries a = []))
               \<and> (TierB \<in> set ts \<and> snapshotFrameViaDOMSnapshot cdp fid sel ''f1e'' [] = None
                    \<longrightarrow> t = Some (join_lines [''- frame '' @ sel @ '' [ref=f1e0]:'',
                               ''  - (CDP: '' @ string_of_nat (length (getAXTreeForFrame cdp fid))
                                 @ '' AX nodes, none matched)''])
                       \<and> (\<forall>r. getRefEntry rm1 sel r = None))))"
  proof -
    fix rm0 t rm1 ts
    assume c: "cdp_snapshot depth context rm0 sel = (t, rm1, ts)"
    from cdp_snapshot_cases[OF c] show "ts \<in> set [[], [TierA], [TierA, TierB]]
      \<and> (TierA \<in> set ts \<longrightarrow>
            (\<exists>ctx cdp tr fid. context = Some ctx \<and> newCDPSession ctx = Some cdp
               \<and> getFrameTree cdp = Reply tr \<and> find_frame_id cdp tr sel = Reply (Some fid)
               \<and> (TierB \<in> set ts \<longleftrightarrow>
                    (\<exists>a. snapshotFrameViaCDP depth cdp fid sel ''f1e'' = Some a \<and> cdp_entries a = []))
               \<and> (TierB \<in> set ts \<and> snapshotFrameViaDOMSnapshot cdp fid sel ''f1e'' [] = None
                    \<longrightarrow> t = Some (join_lines [''- frame '' @ sel @ '' [ref=f1e0]:'',
                               ''  - (CDP: '' @ string_of_nat (length (getAXTreeForFrame cdp fid))
                                 @ '' AX nodes, none matched)''])
                       \<and> (\<forall>r. getRefEntry rm1 sel r = None))))"
    proof (elim disjE exE conjE)
      assume "ts = []" then show ?thesis by simp
    next
      fix ctx cdp tr fid
      assume "context = Some ctx" "newCDPSession ctx = Some cdp" "getFrameTree cdp = Reply tr"
        "find_frame_id cdp tr sel = Reply (Some fid)"
        "ts = [TierA]" "snapshotFrameViaCDP depth cdp fid sel ''f1e'' = None"
      then show ?thesis by auto
    next
      fix ctx cdp tr fid a
      assume "context = Some ctx" "newCDPSession ctx = Some cdp" "getFrameTree cdp = Reply tr"
        "find_frame_id cdp tr sel = Reply (Some fid)"
        "snapshotFrameViaCDP depth cdp fid sel ''f1e'' = Some a" "cdp_entries a \<noteq> []" "ts = [TierA]"
      then show ?thesis by auto
    next
      fix ctx cdp tr fid a
      assume h: "context = Some ctx" "newCDPSession ctx = Some cdp" "getFrameTree cdp = Reply tr"
        "find_frame_id cdp tr sel = Reply (Some fid)"
        and a: "snapshotFrameViaCDP depth cdp fid sel ''f1e'' = Some a" "cdp_entries a = []"
        and ts: "ts = [TierA, TierB]"
        and d: "case snapshotFrameViaDOMSnapshot cdp fid sel ''f1e'' [] of
                  Some d \<Rightarrow> t = Some (cdp_text d)
                             \<and> rm1 = setRefMap rm0 sel (copy_entries (cdp_entries d))
                | None \<Rightarrow> t = Some (cdp_text a) \<and> rm1 = setRefMap rm0 sel (copy_entries [])"
      have "snapshotFrameViaDOMSnapshot cdp fid sel ''f1e'' [] = None \<longrightarrow>
              t = Some (join_lines [''- frame '' @ sel @ '' [ref=f1e0]:'',
                               ''  - (CDP: '' @ string_of_nat (length (getAXTreeForFrame cdp fid))
                                 @ '' AX nodes, none matched)''])
              \<and> (\<forall>r. getRefEntry rm1 sel r = None)"
        using d tier_a_empty_text[OF a]
        by (auto simp add: copy_entries_def lookup_setRefMap)
      with h a ts show ?thesis by auto
    qed
  qed
  show ?thesis
  proof (cases "includes_chain sel")
    case chained: True
    obtain t rm1 ts where c: "cdp_snapshot depth context rm sel = (t, rm1, ts)"
      by (cases "cdp_snapshot depth context rm sel") auto
    from assms True chained c have r: "tiers = ts \<and> rm' = rm1
        \<and> (\<forall>x. t = Some x \<longrightarrow> res = toolResult x False)"
      by (auto simp add: snapshot_frame_tool_def Let_def split: option.splits)
    from part[OF c] r True chained show ?thesis
      by (auto simp add: toolResult_def)
  next
    case plain: False
    show ?thesis
    proof (cases "snapshotFrame pg rm sel")
      case (Pair out rm0)
      show ?thesis
      proof (cases out)
        case (Inr result)
        with assms True plain Pair have "tiers = [InPage]"
          by (simp add: snapshot_frame_tool_def Let_def)
        with True plain show ?thesis by simp
      next
        case (Inl e)
        obtain t rm1 ts where c: "cdp_snapshot depth context rm0 sel = (t, rm1, ts)"
          by (cases "cdp_snapshot depth context rm0 sel") auto
        from assms True plain Pair Inl c have r: "tiers = InPage # ts \<and> rm' = rm1
            \<and> (\<forall>x. t = Some x \<longrightarrow> res = toolResult x False)"
          by (auto simp add: snapshot_frame_tool_def Let_def split: option.splits)
        have f: "\<exists>e. fst (snapshotFrame pg rm sel) = Inl e" using Pair Inl by simp
        from part[OF c] r True plain f show ?thesis
          by (auto simp add: toolResult_def)
      qed
    qed
  qed
qed

theorem tier_escalation_order_witness:
  "snapshot_frame_tool 3 cross_page (Some bare_context) [] ''iframe#player''
     = (none_matched, [(''iframe#player'', [])], [InPage, TierA, TierB])
   \<and> (\<exists>e. fst (snapshotFrame cross_page [] ''iframe#player'') = Inl e)
   \<and> (\<exists>fid. find_frame_id bare_session (Some (Ftn ''F1'' [Ftn ''F2'' []])) ''iframe#player''
                = Reply (Some fid)
             \<and> (\<exists>a. snapshotFrameViaCDP 3 bare_session fid ''iframe#player'' ''f1e'' = Some a
                     \<and> cdp_entries a = []))
   \<and> \<not> isError none_matched"
proof -
  have s: "newCDPSession bare_context = Some bare_session" by (simp add: bare_context_def)
  have t: "getFrameTree bare_session = Reply (Some (Ftn ''F1'' [Ftn ''F2'' []]))"
    by (simp add: bare_session_def layout_session_def)
  from tier_escalation_order[OF bare_run] s t
  have "(\<exists>e. fst (snapshotFrame cross_page [] ''iframe#player'') = Inl e)
   \<and> (\<exists>fid. find_frame_id bare_session (Some (Ftn ''F1'' [Ftn ''F2'' []])) ''iframe#player''
                = Reply (Some fid)
             \<and> (\<exists>a. snapshotFrameViaCDP 3 bare_session fid ''iframe#player'' ''f1e'' = Some a
                     \<and> cdp_entries a = []))"
    by auto
  moreover have "\<not> isError none_matched" by (simp add: none_matched_def)
  ultimately show ?thesis using bare_run by blast
qed

text \<open>
  Claim C2 as stated fails for a chained selector: the in-page collector would
  succeed on the nested frame, and the call does not attempt it; Tier A is the first
  and only collector it attempts.
\<close>

theorem chained_selector_skips_in_page:
  "fst (snapshotFrame chained_page [] ''iframe#outer >> iframe#player'')
     = Inr \<lparr>result_text = join_lines
               [''- frame iframe#outer >> iframe#player [ref=f1e0]:'',
                ''  - link '' @ [CHR 0x22] @ ''New'' @ [CHR 0x22] @ '' [ref=f1e1]''],
             result_refPrefix = ''f1e''\<rparr>
   \<and> snd (snd (snapshot_frame_tool 3 chained_page (Some ax_context) []
                  ''iframe#outer >> iframe#player'')) = [TierA]"
  by code_simp

section \<open>One resolution strategy per entry, and the branch a click takes\<close>

lemma store_ok_setRefMap:
  assumes "store_ok rm" and "\<And>r e. (r, e) \<in> set es \<Longrightarrow> one_strategy e"
  shows "store_ok (setRefMap rm K es)"
  unfolding store_ok_def
proof (intro allI impI)
  fix K' r e
  assume h: "getRefEntry (setRefMap rm K es) K' r = Some e"
  show "one_strategy e"
  proof (cases "K' = K")
    case True
    with h have "map_of es r = Some e" by (simp add: lookup_setRefMap)
    then have "(r, e) \<in> set es" by (rule map_of_SomeD)
    then show ?thesis by (rule assms(2))
  next
    case False
    with h have "getRefEntry rm K' r = Some e" by (simp add: lookup_setRefMap_other)
    with assms(1) show ?thesis by (simp add: store_ok_def)
  qed
qed

lemma locator_entries_ok:
  "(r, e) \<in> set (fst (assign_refs p i ns ([], ls))) \<Longrightarrow> one_strategy e"
  by (drule assign_refs_entries) (auto simp add: one_strategy_def locator_entry_def)

lemma snapshotMainFrame_ok: "store_ok rm \<Longrightarrow> store_ok (snd (snapshotMainFrame pg rm))"
  unfolding snapshotMainFrame_store
  by (rule store_ok_setRefMap) (auto dest: locator_entries_ok)

lemma snapshotFrame_ok: "store_ok rm \<Longrightarrow> store_ok (snd (snapshotFrame pg rm K))"
proof (cases "selector_parts K = []")
  case True
  assume "store_ok rm"
  with True show ?thesis by (simp add: snapshotFrame_def getChainedFrameLocator_def)
next
  case False
  assume ok: "store_ok rm"
  show ?thesis
  proof (cases "frame_document pg (selector_parts K)")
    case None
    with False ok show ?thesis by (simp add: snapshotFrame_def getChainedFrameLocator_def)
  next
    case (Some doc)
    show ?thesis
      unfolding snapshotFrame_store[OF False Some]
      by (rule store_ok_setRefMap[OF ok]) (auto dest: locator_entries_ok)
  qed
qed

lemma tier_a_copy_ok:
  assumes "snapshotFrameViaCDP depth cdp fid key p = Some a"
    and "(r, e) \<in> set (copy_entries (cdp_entries a))"
  shows "one_strategy e"
proof -
  from copy_entries_set[OF assms(2)] obtain c where
    c: "(r, c) \<in> set (cdp_entries a)" "e = to_RefEntry c" by blast
  from tier_a_entries[OF assms(1) c(1)] c(2) show ?thesis
    by (auto simp add: one_strategy_def to_RefEntry_def)
qed

lemma tier_b_copy_ok:
  assumes "snapshotFrameViaDOMSnapshot cdp fid key p strs = Some d"
    and "(r, e) \<in> set (copy_entries (cdp_entries d))"
  shows "one_strategy e"
proof -
  from copy_entries_set[OF assms(2)] obtain c where
    c: "(r, c) \<in> set (cdp_entries d)" "e = to_RefEntry c" by blast
  from tier_b_entries[OF assms(1)] c(1) have "cdp_backendDOMNodeId c = None" by blast
  with c(2) show ?thesis by (simp add: one_strategy_def to_RefEntry_def)
qed

lemma cdp_snapshot_ok:
  assumes "store_ok rm" and "cdp_snapshot depth context rm sel = (t, rm', tiers)"
  shows "store_ok rm'"
  using cdp_snapshot_cases[OF assms(2)]
proof (elim disjE exE conjE)
  assume "rm' = rm" with assms(1) show ?thesis by simp
next
  assume "rm' = rm" with assms(1) show ?thesis by simp
next
  fix ctx cdp tr fid a
  assume "snapshotFrameViaCDP depth cdp fid sel ''f1e'' = Some a"
    and "rm' = setRefMap rm sel (copy_entries (cdp_entries a))"
  then show ?thesis
    using store_ok_setRefMap[OF assms(1)] tier_a_copy_ok by blast
next
  fix ctx cdp tr fid a
  assume a: "snapshotFrameViaCDP depth cdp fid sel ''f1e'' = Some a"
    and d: "case snapshotFrameViaDOMSnapshot cdp fid sel ''f1e'' [] of
              Some d \<Rightarrow> t = Some (cdp_text d)
                         \<and> rm' = setRefMap rm sel (copy_entries (cdp_entries d))
            | None \<Rightarrow> t = Some (cdp_text a) \<and> rm' = setRefMap rm sel (copy_entries [])"
  show ?thesis
  proof (cases "snapshotFrameViaDOMSnapshot cdp fid sel ''f1e'' []")
    case None
    with d have "rm' = setRefMap rm sel []" by (simp add: copy_entries_def)
    moreover have "store_ok (setRefMap rm sel [])"
      by (rule store_ok_setRefMap[OF assms(1)]) simp
    ultimately show ?thesis by simp
  next
    case (Some dd)
    with d have "rm' = setRefMap rm sel (copy_entries (cdp_entries dd))" by simp
    then show ?thesis
      using store_ok_setRefMap[OF assms(1)] tier_b_copy_ok[OF Some] by blast
  qed
qed

lemma snapshot_frame_tool_ok:
  assumes "store_ok rm"
  shows "store_ok (fst (snd (snapshot_frame_tool depth pg context rm sel)))"
proof (cases "truthy sel")
  case False
  with assms show ?thesis by (simp add: snapshot_frame_tool_def)
next
  case True
  show ?thesis
  proof (cases "includes_chain sel")
    case chained: True
    obtain t rm1 ts where c: "cdp_snapshot depth context rm sel = (t, rm1, ts)"
      by (cases "cdp_snapshot depth context rm sel") auto
    from cdp_snapshot_ok[OF assms c] True chained c show ?thesis
      by (auto simp add: snapshot_frame_tool_def Let_def split: option.splits)
  next
    case plain: False
    obtain out rm0 where s: "snapshotFrame pg rm sel = (out, rm0)"
      by (cases "snapshotFrame pg rm sel") auto
    from snapshotFrame_ok[OF assms, of pg sel] s have ok0: "store_ok rm0" by simp
    obtain t rm1 ts where c: "cdp_snapshot depth context rm0 sel = (t, rm1, ts)"
      by (cases "cdp_snapshot depth context rm0 sel") auto
    from cdp_snapshot_ok[OF ok0 c] ok0 True plain s c show ?thesis
      by (auto simp add: snapshot_frame_tool_def Let_def split: option.splits sum.splits)
  qed
qed

lemma copy_handles_fold:
  "(r, e) \<in> set (fold (\<lambda>(ref, c) acc. AList.update ref (to_handle_entry c) acc) es acc0) \<Longrightarrow>
     (r, e) \<in> set acc0 \<or> (\<exists>c. (r, c) \<in> set es \<and> e = to_handle_entry c)"
proof (induction es arbitrary: acc0)
  case Nil
  then show ?case by simp
next
  case (Cons x es)
  obtain k c where x: "x = (k, c)" by (cases x)
  from Cons.prems have
    "(r, e) \<in> set (fold (\<lambda>(ref, c) acc. AList.update ref (to_handle_entry c) acc) es
                      (AList.update k (to_handle_entry c) acc0))"
    by (simp add: x)
  from Cons.IH[OF this] show ?case
    by (auto simp add: x dest: update_set)
qed

lemma copy_handles_ok: "(r, e) \<in> set (copy_handles es) \<Longrightarrow> one_strategy e"
  unfolding copy_handles_def
  by (drule copy_handles_fold) (auto simp add: one_strategy_def to_handle_entry_def)

lemma iframes_loop_ok:
  "store_ok (fst acc) \<Longrightarrow> store_ok (fst (iframes_loop depth pg cdp ids i frames acc))"
proof (induction frames arbitrary: i acc)
  case Nil
  then show ?case by simp
next
  case (Cons ow rest)
  obtain rm lines where acc: "acc = (rm, lines)" by (cases acc)
  with Cons.prems have ok: "store_ok rm" by simp
  define selector where "selector = iframe_selector ow i"
  obtain out rm1 where s: "snapshotFrame pg rm selector = (out, rm1)"
    by (cases "snapshotFrame pg rm selector") auto
  from snapshotFrame_ok[OF ok, of pg selector] s have ok1: "store_ok rm1" by simp
  have set_ok: "\<And>es. store_ok (setRefMap rm1 selector (copy_handles es))"
    by (rule store_ok_setRefMap[OF ok1]) (rule copy_handles_ok)
  define step where "step =
        (case snapshotFrame pg rm selector of
           (Inr result, rm1) \<Rightarrow> (rm1, lines @ [[], result_text result])
         | (Inl e, rm1) \<Rightarrow>
            (case cdp of
               None \<Rightarrow> (rm1, lines @ [[], ''- iframe ['' @ selector
                                            @ ''] (cross-origin or unavailable)''])
             | Some session \<Rightarrow>
                 if length ids > i + 1 then
                   (case snapshotFrameViaCDP depth session (ids ! (i + 1)) selector
                           (''f'' @ string_of_nat (i + 1) @ ''e'') of
                      Some cdpResult \<Rightarrow>
                        (setRefMap rm1 selector (copy_handles (cdp_entries cdpResult)),
                         lines @ [[], cdp_text cdpResult])
                    | None \<Rightarrow> (rm1, lines @ [[], ''- iframe ['' @ selector
                                                  @ ''] (CDP snapshot failed)'']))
                 else (rm1, lines @ [[], ''- iframe ['' @ selector
                                          @ ''] (cross-origin or unavailable)''])))"
  have "store_ok (fst step)"
    unfolding step_def s using ok1 set_ok
    by (auto split: sum.splits option.splits)
  from Cons.IH[OF this, of "Suc i"] show ?case
    by (simp add: acc Let_def selector_def[symmetric] step_def[symmetric])
qed

lemma snapshotMainFrameWithIframes_ok:
  assumes "store_ok rm"
  shows "store_ok (snd (snapshotMainFrameWithIframes depth pg frames context rm))"
proof -
  obtain main rm0 where m: "snapshotMainFrame pg rm = (main, rm0)"
    by (cases "snapshotMainFrame pg rm") auto
  from snapshotMainFrame_ok[OF assms, of pg] m have ok0: "store_ok rm0" by simp
  obtain cdp ids where p: "prepare_cdp context = (cdp, ids)"
    by (cases "prepare_cdp context") auto
  obtain rm1 lines where l: "iframes_loop depth pg cdp ids 0 frames (rm0, [result_text main]) = (rm1, lines)"
    by (cases "iframes_loop depth pg cdp ids 0 frames (rm0, [result_text main])") auto
  from iframes_loop_ok[of "(rm0, [result_text main])" depth pg cdp ids 0 frames] ok0 l
  have "store_ok rm1" by simp
  with m p l show ?thesis by (simp add: snapshotMainFrameWithIframes_def)
qed

text \<open>
  Claim C4, as amended. No entry that the in-page snapshots, the snapshot of the page
  with its iframes or the tool (through Tier A or Tier B) put into the store has both
  a node handle and a viewport point: a store in order stays in order. When a browser context with a protocol session is
  at hand, the fields of the entry decide the branch of \<open>click\<close>: a viewport point
  gives the click at that point, a node handle without a viewport point gives the click
  through the node's box, and neither gives the click through the locator. Without a
  browser context \<open>click\<close> takes the locator branch whatever the entry holds.
\<close>

theorem one_strategy_and_click_branch:
  "(store_ok rm \<longrightarrow>
      store_ok (snd (snapshotMainFrame pg rm)) \<and> store_ok (snd (snapshotFrame pg rm K))
      \<and> store_ok (fst (snd (snapshot_frame_tool depth pg context rm K)))
      \<and> store_ok (snd (snapshotMainFrameWithIframes depth pg frames context rm)))
   \<and> (getRefEntry (refMap w) (frame_key fs) r = Some e \<longrightarrow>
        (\<forall>ctx cdp. context = Some ctx \<and> newCDPSession ctx = Some cdp \<longrightarrow>
           (\<forall>x y. viewportClickPoint e = Some (x, y) \<longrightarrow>
                    click pg w r fs context = dispatchClickAtPoint cdp w x y)
         \<and> (\<forall>b. viewportClickPoint e = None \<and> backendDOMNodeId e = Some b \<longrightarrow>
                    click pg w r fs context = clickViaCDP cdp w b))
      \<and> (context = None \<or> (backendDOMNodeId e = None \<and> viewportClickPoint e = None) \<longrightarrow>
           click pg w r fs context =
             (case getLocatorForRef (refMap w) fs r of
                Inl err \<Rightarrow> (Inl err, w)
              | Inr loc \<Rightarrow> (case resolve pg ''click'' loc of
                               Inl err \<Rightarrow> (Inl err, w)
                             | Inr el \<Rightarrow> (Inr (), emit w [Clicked el])))))"
proof (intro conjI impI allI)
  assume "store_ok rm"
  then show "store_ok (snd (snapshotMainFrame pg rm))" by (rule snapshotMainFrame_ok)
next
  assume "store_ok rm"
  then show "store_ok (snd (snapshotFrame pg rm K))" by (rule snapshotFrame_ok)
next
  assume "store_ok rm"
  then show "store_ok (fst (snd (snapshot_frame_tool depth pg context rm K)))"
    by (rule snapshot_frame_tool_ok)
next
  assume "store_ok rm"
  then show "store_ok (snd (snapshotMainFrameWithIframes depth pg frames context rm))"
    by (rule snapshotMainFrameWithIframes_ok)
next
  fix ctx cdp x y
  assume "getRefEntry (refMap w) (frame_key fs) r = Some e"
    and "context = Some ctx \<and> newCDPSession ctx = Some cdp"
    and "viewportClickPoint e = Some (x, y)"
  then show "click pg w r fs context = dispatchClickAtPoint cdp w x y"
    by (simp add: click_def)
next
  fix ctx cdp b
  assume "getRefEntry (refMap w) (frame_key fs) r = Some e"
    and "context = Some ctx \<and> newCDPSession ctx = Some cdp"
    and "viewportClickPoint e = None \<and> backendDOMNodeId e = Some b"
  then show "click pg w r fs context = clickViaCDP cdp w b"
    by (simp add: click_def)
next
  assume "getRefEntry (refMap w) (frame_key fs) r = Some e"
    and "context = None \<or> (backendDOMNodeId e = None \<and> viewportClickPoint e = None)"
  then show "click pg w r fs context =
             (case getLocatorForRef (refMap w) fs r of
                Inl err \<Rightarrow> (Inl err, w)
              | Inr loc \<Rightarrow> (case resolve pg ''click'' loc of
                               Inl err \<Rightarrow> (Inl err, w)
                             | Inr el \<Rightarrow> (Inr (), emit w [Clicked el])))"
    by (rule click_by_locator)
qed

theorem one_strategy_and_click_branch_witness:
  "store_ok (refMap play_world)
   \<and> getRefEntry (refMap play_world) ''iframe#player'' ''f1e1'' = Some (to_RefEntry play_entry)
   \<and> click play_page play_world ''f1e1'' (Some ''iframe#player'') (Some click_context)
       = clickViaCDP click_session play_world 12
   \<and> clickViaCDP click_session play_world 12
       = (Inr (), play_world\<lparr>events := [MouseEvent ''mousePressed'' 20 30 ''left'' 1,
                                          MouseEvent ''mouseReleased'' 20 30 ''left'' 1]\<rparr>)"
proof -
  have e: "store_ok []" by (simp add: store_ok_def getRefEntry_def)
  have g: "getRefEntry (refMap play_world) (frame_key (Some ''iframe#player'')) ''f1e1''
             = Some (to_RefEntry play_entry)" by code_simp
  have k: "frame_key (Some ''iframe#player'') = ''iframe#player''" by (simp add: frame_key_def)
  have c: "Some click_context = Some click_context \<and> newCDPSession click_context = Some click_session"
    by (simp add: click_context_def)
  have f: "viewportClickPoint (to_RefEntry play_entry) = None
           \<and> backendDOMNodeId (to_RefEntry play_entry) = Some 12"
    by (simp add: to_RefEntry_def play_entry_def)
  have v: "clickViaCDP click_session play_world 12
       = (Inr (), play_world\<lparr>events := [MouseEvent ''mousePressed'' 20 30 ''left'' 1,
                                          MouseEvent ''mouseReleased'' 20 30 ''left'' 1]\<rparr>)"
    by code_simp
  note t1 = one_strategy_and_click_branch[of "[]" cross_page "''iframe#player''" 3
              "Some ax_context"]
  note t2 = one_strategy_and_click_branch[of _ play_page _ _ "Some click_context" _ play_world
              "Some ''iframe#player''" "''f1e1''" "to_RefEntry play_entry"]
  from t1 e have 1: "store_ok (refMap play_world)" by (simp add: play_world_def)
  from t2 g c f have 2: "click play_page play_world ''f1e1'' (Some ''iframe#player'') (Some click_context)
       = clickViaCDP click_session play_world 12" by blast
  from 1 2 g v show ?thesis by (simp add: k)
qed

text \<open>
  Claim C4 as stated fails in its second part: for the same entry, which has a node
  handle and no viewport point, \<open>click\<close> goes through the locator when it is given no
  browser context and through the node's box when it is given one.
\<close>

theorem click_branch_depends_on_context:
  "getRefEntry (refMap play_world) ''iframe#player'' ''f1e1''
     = Some \<lparr>role = ''button'', name = ''Play'', frameId = Some ''F2'',
             backendDOMNodeId = Some 12, viewportClickPoint = None\<rparr>
   \<and> click play_page play_world ''f1e1'' (Some ''iframe#player'') None
       = (Inr (), play_world\<lparr>events := [Clicked 5]\<rparr>)
   \<and> click play_page play_world ''f1e1'' (Some ''iframe#player'') (Some click_context)
       = (Inr (), play_world\<lparr>events := [MouseEvent ''mousePressed'' 20 30 ''left'' 1,
                                          MouseEvent ''mouseReleased'' 20 30 ''left'' 1]\<rparr>)"
  by code_simp

section \<open>The walk on a tree completes\<close>

text \<open>
  The walk runs out of stack only on a cycle or on a tree deeper than the stack. When
  the child ids of every node have a smaller rank than the id of the node (as in a
  tree, with the height as rank), a depth above the rank of the start is enough, and
  the collection of Tier A returns.
\<close>

lemma those_not_None: "(\<And>x. x \<in> set xs \<Longrightarrow> f x \<noteq> None) \<Longrightarrow> those (map f xs) \<noteq> None"
proof (induction xs)
  case Nil
  then show ?case by simp
next
  case (Cons x xs)
  then have "f x \<noteq> None" and "those (map f xs) \<noteq> None" by simp_all
  then show ?case by (auto split: option.splits)
qed

lemma walk_completes:
  assumes ranked: "\<And>i node cs c. map_of byId i = Some node \<Longrightarrow> ax_childIds node = Some cs
                     \<Longrightarrow> c \<in> set cs \<Longrightarrow> rank c < rank i"
  shows "rank i < d \<Longrightarrow> walk d byId i \<noteq> None"
proof (induction d arbitrary: i)
  case 0
  then show ?case by simp
next
  case (Suc d)
  show ?case
  proof (cases "map_of byId i")
    case None
    then show ?thesis by simp
  next
    case (Some node)
    define cs where "cs = (case ax_childIds node of None \<Rightarrow> [] | Some cs \<Rightarrow> cs)"
    have "those (map (walk d byId) cs) \<noteq> None"
    proof (rule those_not_None)
      fix c assume c: "c \<in> set cs"
      then obtain cs' where "ax_childIds node = Some cs'" "c \<in> set cs'"
        by (cases "ax_childIds node") (auto simp add: cs_def)
      from ranked[OF Some this] Suc.prems have "rank c < d" by simp
      then show "walk d byId c \<noteq> None" by (rule Suc.IH)
    qed
    with Some show ?thesis by (auto simp add: cs_def[symmetric])
  qed
qed

lemma collect_completes:
  assumes ranked: "\<And>i node cs c. map_of (byId_of nodes) i = Some node \<Longrightarrow> ax_childIds node = Some cs
                     \<Longrightarrow> c \<in> set cs \<Longrightarrow> rank c < rank i"
    and deep: "\<And>n i. n \<in> set nodes \<Longrightarrow> ax_nodeId n = Some i \<Longrightarrow> rank i < depth"
  shows "collectInteractiveNodes depth nodes \<noteq> None"
proof -
  have "those (map (\<lambda>n. case if_truthy (ax_nodeId n) of
                             Some i \<Rightarrow> walk depth (byId_of nodes) i | None \<Rightarrow> Some [])
                   (filter (\<lambda>n. if_truthy (ax_parentId n) = None) nodes)) \<noteq> None"
  proof (rule those_not_None)
    fix n assume n: "n \<in> set (filter (\<lambda>n. if_truthy (ax_parentId n) = None) nodes)"
    show "(case if_truthy (ax_nodeId n) of
             Some i \<Rightarrow> walk depth (byId_of nodes) i | None \<Rightarrow> Some []) \<noteq> None"
    proof (cases "if_truthy (ax_nodeId n)")
      case None
      then show ?thesis by simp
    next
      case (Some i)
      then have "ax_nodeId n = Some i"
        by (auto simp add: if_truthy_def split: option.splits if_splits)
      moreover from n have "n \<in> set nodes" by simp
      ultimately have "rank i < depth" by (rule deep[rotated])
      from walk_completes[of "byId_of nodes" rank, OF ranked this] Some show ?thesis by simp
    qed
  qed
  then show ?thesis
    by (auto simp add: collectInteractiveNodes_def Let_def split: option.splits)
qed

end
